theory Spec2Isabelle
  imports Main "HOL-Library.Sublist" "HOL-Library.Word"
begin

unbundle bit_operations_syntax

section \<open>Data model\<close>

text \<open>
  The plugin (\<^verbatim>\<open>src/main.ts\<close>) drives four collaborators: the host application's vault
  and metadata cache, the link handler \<^verbatim>\<open>this.lh\<close>, the \<^verbatim>\<open>path\<close> helper and the
  \<^verbatim>\<open>Md5\<close> class.  Their code is not part of \<^verbatim>\<open>main.ts\<close>; they are fields of the record
  \<open>host\<close> below and every function of the plugin takes that record as its first argument.
  The vault itself is a value of an arbitrary type \<open>'w\<close>: the plugin never looks inside it,
  it only hands it to the collaborators.
\<close>

type_synonym bytes = "8 word list"

text \<open>A JavaScript exception value; \<open>error_toString\<close> is what string concatenation
  (\<^verbatim>\<open>"..." + e\<close>) makes of it: the name alone when the message is empty, otherwise the
  name, a colon, a space and the message.\<close>

datatype error = Error string | TypeError string | SyntaxError string

fun error_toString :: "error \<Rightarrow> string" where
  "error_toString (Error m) = (if m = [] then ''Error'' else ''Error: '' @ m)"
| "error_toString (TypeError m) = (if m = [] then ''TypeError'' else ''TypeError: '' @ m)"
| "error_toString (SyntaxError m) = (if m = [] then ''SyntaxError'' else ''SyntaxError: '' @ m)"

text \<open>A file handle (\<^verbatim>\<open>TFile\<close>; a \<^verbatim>\<open>TAbstractFile\<close> is the same record, of which the
  plugin reads \<open>path\<close> only).\<close>

record TFile =
  path :: string
  extension :: string

record PluginSettings =
  ignoreFolders :: "string list"
  renameFileTypes :: "string list"
  renameOnlyLinkedAttachments :: bool
  mergeTheSameAttachments :: bool

text \<open>The value \<^verbatim>\<open>JSON.parse\<close> returns.  Numbers are integers here; the plugin only tests
  a number for truthiness.\<close>

datatype json =
    JNull
  | JBool bool
  | JNumber int
  | JString string
  | JArray "json list"
  | JObject "(string \<times> json) list"

text \<open>
  What a run leaves behind, in order: console output, notices, and one entry for every
  storage or link-handler call that changed the vault (entered when the call has returned
  normally).
\<close>

datatype event =
    ConsoleWarn string
  | ConsoleError string
  | ConsoleLog string
  | Notice string
  | VaultDelete string
  | VaultRename string string
  | UpdateChangedPathInCanvas string string string
  | UpdateChangedPathInNote string string string

record 'w host =
  settings :: PluginSettings
  path_extname :: "string \<Rightarrow> string"
  path_basename :: "string \<Rightarrow> string \<Rightarrow> string"
  md5_hex :: "bytes \<Rightarrow> string"
  vault_getFiles :: "'w \<Rightarrow> TFile list"
  vault_getAbstractFileByPath :: "'w \<Rightarrow> string \<Rightarrow> TFile option"
  vault_readBinary :: "'w \<Rightarrow> TFile option \<Rightarrow> error + bytes"
  vault_read :: "'w \<Rightarrow> TFile \<Rightarrow> error + string"
  vault_delete :: "'w \<Rightarrow> TFile \<Rightarrow> error + 'w"
  vault_rename :: "'w \<Rightarrow> TFile \<Rightarrow> string \<Rightarrow> error + 'w"
  adapter_exists :: "'w \<Rightarrow> string \<Rightarrow> error + bool"
  workspace_getActiveFile :: "'w \<Rightarrow> TFile option"
  workspace_hasActiveLeaf :: "'w \<Rightarrow> bool"
  metadataCache_resolvedLinks :: "'w \<Rightarrow> string \<Rightarrow> string list option"
  metadataCache_getFileCache :: "'w \<Rightarrow> TFile \<Rightarrow> error + unit"
  JSON_parse :: "string \<Rightarrow> error + json"
  lh_getFileByPath :: "'w \<Rightarrow> string \<Rightarrow> TFile option"
  lh_getNotesThatHaveLinkToFile :: "'w \<Rightarrow> string \<Rightarrow> error + string list option"
  lh_getNotesThatHaveLinkToFileInCanvas :: "'w \<Rightarrow> string \<Rightarrow> error + string list option"
  lh_getFilePathWithRenamedBaseName :: "string \<Rightarrow> string \<Rightarrow> string"
  lh_getFullPathForLink :: "json \<Rightarrow> string \<Rightarrow> error + string"
  lh_updateChangedPathInCanvas :: "'w \<Rightarrow> string \<Rightarrow> string \<Rightarrow> string \<Rightarrow> error + 'w"
  lh_updateChangedPathInNote :: "'w \<Rightarrow> string \<Rightarrow> string \<Rightarrow> string \<Rightarrow> error + 'w"

text \<open>
  Every awaited call returns \<open>error + result\<close>: \<open>Inl e\<close> is a rejected promise (the
  \<^verbatim>\<open>await\<close> throws \<open>e\<close>), \<open>Inr r\<close> a fulfilled one.  A call that changes the vault
  returns the new vault; one that fails returns none, so a failed call changes nothing.
  \<open>None\<close> stands for \<^verbatim>\<open>null\<close> or \<^verbatim>\<open>undefined\<close>.
\<close>

record 'w state =
  world :: 'w
  trace :: "event list"

definition emit :: "event \<Rightarrow> 'w state \<Rightarrow> 'w state" where
  "emit e st = st\<lparr>trace := trace st @ [e]\<rparr>"

section \<open>The plugin\<close>

subsection \<open>Filters (lines 262-276)\<close>

fun checkFilePathIsIgnored_loop :: "string list \<Rightarrow> string \<Rightarrow> bool" where
  "checkFilePathIsIgnored_loop [] filePath = False"
| "checkFilePathIsIgnored_loop (folder # rest) filePath =
     (if prefix folder filePath then True else checkFilePathIsIgnored_loop rest filePath)"

definition checkFilePathIsIgnored :: "'w host \<Rightarrow> string \<Rightarrow> bool" where
  "checkFilePathIsIgnored h filePath =
     checkFilePathIsIgnored_loop (ignoreFolders (settings h)) filePath"

fun checkFileTypeIsAllowed_loop :: "string list \<Rightarrow> string \<Rightarrow> bool" where
  "checkFileTypeIsAllowed_loop [] filePath = False"
| "checkFileTypeIsAllowed_loop (ext # rest) filePath =
     (if suffix (''.'' @ ext) filePath then True else checkFileTypeIsAllowed_loop rest filePath)"

definition checkFileTypeIsAllowed :: "'w host \<Rightarrow> string \<Rightarrow> bool" where
  "checkFileTypeIsAllowed h filePath =
     checkFileTypeIsAllowed_loop (renameFileTypes (settings h)) filePath"

subsection \<open>Fingerprint (lines 278-291)\<close>

definition generateValidBaseName :: "'w host \<Rightarrow> 'w \<Rightarrow> string \<Rightarrow> error + string" where
  "generateValidBaseName h w filePath =
     (case vault_readBinary h w (lh_getFileByPath h w filePath) of
        Inl e \<Rightarrow> Inl e
      | Inr buf \<Rightarrow> Inr (md5_hex h buf))"

subsection \<open>Rename or merge one attachment (lines 73-155)\<close>

text \<open>Line 89: \<^verbatim>\<open>[...new Set([...(mdNotes || []), ...(canvasNotes || [])])]\<close>.  A
  \<^verbatim>\<open>Set\<close> keeps the first occurrence of each element, in insertion order.\<close>

fun orEmpty :: "'a list option \<Rightarrow> 'a list" where
  "orEmpty None = []"
| "orEmpty (Some xs) = xs"

fun Set_addAll :: "'a list \<Rightarrow> 'a list \<Rightarrow> 'a list" where
  "Set_addAll acc [] = acc"
| "Set_addAll acc (x # xs) = Set_addAll (if x \<in> set acc then acc else acc @ [x]) xs"

definition collectAllNotes :: "string list option \<Rightarrow> string list option \<Rightarrow> string list" where
  "collectAllNotes mdNotes canvasNotes = Set_addAll [] (orEmpty mdNotes @ orEmpty canvasNotes)"

text \<open>Lines 121-129 and 141-149, the same loop twice: rewrite every note of \<open>allNotes\<close>.  No
  \<^verbatim>\<open>try\<close> surrounds it, so a rejected update leaves the loop and the function.\<close>

fun updateReferences ::
  "'w host \<Rightarrow> string list \<Rightarrow> string \<Rightarrow> string \<Rightarrow> 'w state \<Rightarrow> (error + unit) \<times> 'w state" where
  "updateReferences h [] filePath validPath st = (Inr (), st)"
| "updateReferences h (note # rest) filePath validPath st =
     (if suffix ''.canvas'' note then
        (case lh_updateChangedPathInCanvas h (world st) note filePath validPath of
           Inl e \<Rightarrow> (Inl e, st)
         | Inr w' \<Rightarrow>
             updateReferences h rest filePath validPath
               (emit (UpdateChangedPathInCanvas note filePath validPath) (st\<lparr>world := w'\<rparr>)))
      else
        (case lh_updateChangedPathInNote h (world st) note filePath validPath of
           Inl e \<Rightarrow> (Inl e, st)
         | Inr w' \<Rightarrow>
             updateReferences h rest filePath validPath
               (emit (UpdateChangedPathInNote note filePath validPath) (st\<lparr>world := w'\<rparr>))))"

text \<open>The console messages of lines 104, 109, 116, 131, 136 and 151.\<close>

definition msg_clash :: "string \<Rightarrow> string \<Rightarrow> string" where
  "msg_clash filePath validPath =
     ''Unique attachments: cant rename file \<newline>   '' @ filePath @ ''\<newline>    to\<newline>   '' @ validPath
     @ ''\<newline>   Another file exists with the same (target) name but different content.''"

definition msg_duplicate :: "string \<Rightarrow> string \<Rightarrow> string" where
  "msg_duplicate filePath validPath =
     ''Unique attachments: cant rename file \<newline>   '' @ filePath @ ''\<newline>    to\<newline>   '' @ validPath
     @ ''\<newline>   Another file exists with the same (target) name and the same content. You can enable ''
     @ [CHR 0x22] @ ''Delete duplicates'' @ [CHR 0x22]
     @ '' setting for delete this file and merge attachments.''"

definition msg_cant_delete :: "string \<Rightarrow> error \<Rightarrow> string" where
  "msg_cant_delete filePath e =
     ''Unique attachments: cant delete duplicate file '' @ filePath @ ''.\<newline>'' @ error_toString e"

definition msg_merged :: "string \<Rightarrow> string \<Rightarrow> string" where
  "msg_merged filePath validPath =
     ''Unique attachments: file content is the same in \<newline>   '' @ filePath @ ''\<newline>   and \<newline>   ''
     @ validPath @ ''\<newline>   Duplicates merged.''"

definition msg_cant_rename :: "string \<Rightarrow> string \<Rightarrow> error \<Rightarrow> string" where
  "msg_cant_rename filePath validPath e =
     ''Unique attachments: cant rename file \<newline>   '' @ filePath @ ''\<newline>   to\<newline>   '' @ validPath
     @ ''   \<newline>'' @ error_toString e"

definition msg_renamed :: "string \<Rightarrow> string \<Rightarrow> string" where
  "msg_renamed filePath validPath =
     ''Unique attachments: file renamed [from, to]:\<newline>   '' @ filePath @ ''\<newline>   '' @ validPath"

text \<open>Lines 101-131: a file exists at \<open>validPath\<close>.\<close>

definition mergeIntoExisting ::
  "'w host \<Rightarrow> TFile \<Rightarrow> string \<Rightarrow> string list \<Rightarrow> string \<Rightarrow> 'w state \<Rightarrow> (error + bool) \<times> 'w state" where
  "mergeIntoExisting h file validBaseName allNotes validPath st =
     (case generateValidBaseName h (world st) validPath of
        Inl e \<Rightarrow> (Inl e, st)
      | Inr validAnotherFileBaseName \<Rightarrow>
          if validAnotherFileBaseName \<noteq> validBaseName then
            (Inr False, emit (ConsoleWarn (msg_clash (path file) validPath)) st)
          else if \<not> mergeTheSameAttachments (settings h) then
            (Inr False, emit (ConsoleWarn (msg_duplicate (path file) validPath)) st)
          else
            (case vault_delete h (world st) file of
               Inl e \<Rightarrow> (Inr False, emit (ConsoleError (msg_cant_delete (path file) e)) st)
             | Inr w' \<Rightarrow>
                 (case updateReferences h allNotes (path file) validPath
                         (emit (VaultDelete (path file)) (st\<lparr>world := w'\<rparr>)) of
                    (Inl e, st') \<Rightarrow> (Inl e, st')
                  | (Inr u, st') \<Rightarrow>
                      (Inr True, emit (ConsoleLog (msg_merged (path file) validPath)) st'))))"

text \<open>Lines 133-151: no file exists at \<open>validPath\<close>.\<close>

definition renameToValidPath ::
  "'w host \<Rightarrow> TFile \<Rightarrow> string list \<Rightarrow> string \<Rightarrow> 'w state \<Rightarrow> (error + bool) \<times> 'w state" where
  "renameToValidPath h file allNotes validPath st =
     (case vault_rename h (world st) file validPath of
        Inl e \<Rightarrow> (Inr False, emit (ConsoleError (msg_cant_rename (path file) validPath e)) st)
      | Inr w' \<Rightarrow>
          (case updateReferences h allNotes (path file) validPath
                  (emit (VaultRename (path file) validPath) (st\<lparr>world := w'\<rparr>)) of
             (Inl e, st') \<Rightarrow> (Inl e, st')
           | (Inr u, st') \<Rightarrow>
               (Inr True, emit (ConsoleLog (msg_renamed (path file) validPath)) st')))"

text \<open>Lines 79-154, entered once the filters of line 75 have let the file through.\<close>

definition processAttachment :: "'w host \<Rightarrow> TFile \<Rightarrow> 'w state \<Rightarrow> (error + bool) \<times> 'w state" where
  "processAttachment h file st =
     (let filePath = path file;
          ext = path_extname h filePath;
          baseName = path_basename h filePath ext
      in case generateValidBaseName h (world st) filePath of
           Inl e \<Rightarrow> (Inl e, st)
         | Inr validBaseName \<Rightarrow>
             if baseName = validBaseName then (Inr False, st)
             else
               (case lh_getNotesThatHaveLinkToFile h (world st) filePath of
                  Inl e \<Rightarrow> (Inl e, st)
                | Inr mdNotes \<Rightarrow>
                    (case lh_getNotesThatHaveLinkToFileInCanvas h (world st) filePath of
                       Inl e \<Rightarrow> (Inl e, st)
                     | Inr canvasNotes \<Rightarrow>
                         (let allNotes = collectAllNotes mdNotes canvasNotes in
                          if allNotes = [] \<and> renameOnlyLinkedAttachments (settings h) then
                            (Inr False, st)
                          else
                            (let validPath =
                                   lh_getFilePathWithRenamedBaseName h filePath validBaseName
                             in case adapter_exists h (world st) validPath of
                                  Inl e \<Rightarrow> (Inl e, st)
                                | Inr targetFileAlreadyExists \<Rightarrow>
                                    if targetFileAlreadyExists then
                                      mergeIntoExisting h file validBaseName allNotes validPath st
                                    else renameToValidPath h file allNotes validPath st)))))"

definition renameAttachmentIfNeeded ::
  "'w host \<Rightarrow> TFile \<Rightarrow> 'w state \<Rightarrow> (error + bool) \<times> 'w state" where
  "renameAttachmentIfNeeded h file st =
     (if checkFilePathIsIgnored h (path file) then (Inr False, st)
      else if \<not> checkFileTypeIsAllowed h (path file) then (Inr False, st)
      else processAttachment h file st)"

subsection \<open>Rename all attachments (lines 31-47)\<close>

fun string_of_nat :: "nat \<Rightarrow> string" where
  "string_of_nat n =
     (if n < 10 then [''0123456789'' ! n]
      else string_of_nat (n div 10) @ [''0123456789'' ! (n mod 10)])"

text \<open>Lines 41-46 and 65-70: the notice that reports the count.\<close>

definition countNotice :: "nat \<Rightarrow> string" where
  "countNotice renamedCount =
     (if renamedCount = 0 then ''No files found that need to be renamed''
      else if renamedCount = 1 then ''Renamed 1 file.''
      else ''Renamed '' @ string_of_nat renamedCount @ '' files.'')"

text \<open>Lines 35-39.  The loop has no \<^verbatim>\<open>try\<close>: an exception that leaves
  \<open>renameAttachmentIfNeeded\<close> leaves the loop and \<open>renameAllAttachments\<close> with it.\<close>

fun renameAll_loop ::
  "'w host \<Rightarrow> TFile list \<Rightarrow> nat \<Rightarrow> 'w state \<Rightarrow> (error + nat) \<times> 'w state" where
  "renameAll_loop h [] renamedCount st = (Inr renamedCount, st)"
| "renameAll_loop h (file # rest) renamedCount st =
     (case renameAttachmentIfNeeded h file st of
        (Inl e, st') \<Rightarrow> (Inl e, st')
      | (Inr renamed, st') \<Rightarrow>
          renameAll_loop h rest (if renamed then renamedCount + 1 else renamedCount) st')"

definition renameAllAttachments :: "'w host \<Rightarrow> 'w state \<Rightarrow> (error + unit) \<times> 'w state" where
  "renameAllAttachments h st =
     (case renameAll_loop h (vault_getFiles h (world st)) 0 st of
        (Inl e, st') \<Rightarrow> (Inl e, st')
      | (Inr renamedCount, st') \<Rightarrow> (Inr (), emit (Notice (countNotice renamedCount)) st'))"

subsection \<open>Rename the attachments of the active document (lines 49-71, 157-192)\<close>

text \<open>Property access, iteration and truthiness of a parsed JSON value, as JavaScript
  defines them: reading a property of \<^verbatim>\<open>null\<close> throws, a property that is not there is
  \<^verbatim>\<open>undefined\<close>; \<^verbatim>\<open>for ... of\<close> accepts an array or a string and throws on anything
  else.\<close>

fun js_get :: "json \<Rightarrow> string \<Rightarrow> error + json option" where
  "js_get JNull k = Inl (TypeError (''Cannot read properties of null (reading '' @ k @ '')''))"
| "js_get (JObject kvs) k = Inr (map_of kvs k)"
| "js_get v k = Inr None"

fun js_iterate :: "json option \<Rightarrow> error + json list" where
  "js_iterate (Some (JArray xs)) = Inr xs"
| "js_iterate (Some (JString s)) = Inr (map (\<lambda>c. JString [c]) s)"
| "js_iterate v = Inl (TypeError ''canvasData.nodes is not iterable'')"

fun js_truthy :: "json \<Rightarrow> bool" where
  "js_truthy JNull = False"
| "js_truthy (JBool b) = b"
| "js_truthy (JNumber n) = (n \<noteq> 0)"
| "js_truthy (JString s) = (s \<noteq> [])"
| "js_truthy v = True"

text \<open>Lines 166-172.\<close>

fun renameLinks_loop ::
  "'w host \<Rightarrow> string list \<Rightarrow> nat \<Rightarrow> 'w state \<Rightarrow> (error + nat) \<times> 'w state" where
  "renameLinks_loop h [] renamedCount st = (Inr renamedCount, st)"
| "renameLinks_loop h (rlink # rest) renamedCount st =
     (case vault_getAbstractFileByPath h (world st) rlink of
        None \<Rightarrow> renameLinks_loop h rest renamedCount st
      | Some file \<Rightarrow>
          (case renameAttachmentIfNeeded h file st of
             (Inl e, st') \<Rightarrow> (Inl e, st')
           | (Inr renamed, st') \<Rightarrow>
               renameLinks_loop h rest (if renamed then renamedCount + 1 else renamedCount) st'))"

text \<open>Lines 179-188.\<close>

fun renameNodes_loop ::
  "'w host \<Rightarrow> TFile \<Rightarrow> json list \<Rightarrow> nat \<Rightarrow> 'w state \<Rightarrow> (error + nat) \<times> 'w state" where
  "renameNodes_loop h mdfile [] renamedCount st = (Inr renamedCount, st)"
| "renameNodes_loop h mdfile (node # rest) renamedCount st =
     (case js_get node ''type'' of
        Inl e \<Rightarrow> (Inl e, st)
      | Inr ty \<Rightarrow>
          if ty \<noteq> Some (JString ''file'') then renameNodes_loop h mdfile rest renamedCount st
          else
            (case js_get node ''file'' of
               Inl e \<Rightarrow> (Inl e, st)
             | Inr None \<Rightarrow> renameNodes_loop h mdfile rest renamedCount st
             | Inr (Some nodeFile) \<Rightarrow>
                 if \<not> js_truthy nodeFile then renameNodes_loop h mdfile rest renamedCount st
                 else
                   (case lh_getFullPathForLink h nodeFile (path mdfile) of
                      Inl e \<Rightarrow> (Inl e, st)
                    | Inr filePath \<Rightarrow>
                        (case vault_getAbstractFileByPath h (world st) filePath of
                           None \<Rightarrow> renameNodes_loop h mdfile rest renamedCount st
                         | Some file \<Rightarrow>
                             (case renameAttachmentIfNeeded h file st of
                                (Inl e, st') \<Rightarrow> (Inl e, st')
                              | (Inr renamed, st') \<Rightarrow>
                                  renameNodes_loop h mdfile rest
                                    (if renamed then renamedCount + 1 else renamedCount) st')))))"

text \<open>Lines 157-192.  Line 159 reads \<^verbatim>\<open>activeLeaf.view\<close> (and throws when there is no
  active leaf); line 163 takes the keys of the document's resolved links (and throws when
  the cache has no entry for it); line 164 reads the file cache, whose value is not used;
  lines 176-177 read and parse the canvas outside any \<^verbatim>\<open>try\<close>.\<close>

definition renameAttachmentsForActiveMD ::
  "'w host \<Rightarrow> TFile \<Rightarrow> 'w state \<Rightarrow> (error + nat) \<times> 'w state" where
  "renameAttachmentsForActiveMD h mdfile st =
     (if \<not> workspace_hasActiveLeaf h (world st) then
        (Inl (TypeError ''Cannot read properties of null (reading view)''), st)
      else if extension mdfile = ''md'' then
        (case metadataCache_resolvedLinks h (world st) (path mdfile) of
           None \<Rightarrow> (Inl (TypeError ''Cannot convert undefined or null to object''), st)
         | Some rlinks \<Rightarrow>
             (case metadataCache_getFileCache h (world st) mdfile of
                Inl e \<Rightarrow> (Inl e, st)
              | Inr actMetadataCache \<Rightarrow> renameLinks_loop h rlinks 0 st))
      else if extension mdfile = ''canvas'' then
        (case vault_read h (world st) mdfile of
           Inl e \<Rightarrow> (Inl e, st)
         | Inr content \<Rightarrow>
             (case JSON_parse h content of
                Inl e \<Rightarrow> (Inl e, st)
              | Inr canvasData \<Rightarrow>
                  (case js_get canvasData ''nodes'' of
                     Inl e \<Rightarrow> (Inl e, st)
                   | Inr nodesValue \<Rightarrow>
                       (case js_iterate nodesValue of
                          Inl e \<Rightarrow> (Inl e, st)
                        | Inr nodes \<Rightarrow> renameNodes_loop h mdfile nodes 0 st))))
      else (Inr 0, st))"

text \<open>Lines 49-71.\<close>

definition renameOnlyActiveAttachments :: "'w host \<Rightarrow> 'w state \<Rightarrow> (error + unit) \<times> 'w state" where
  "renameOnlyActiveAttachments h st =
     (case workspace_getActiveFile h (world st) of
        None \<Rightarrow> (Inr (), emit (Notice ''No active file'') st)
      | Some activeFile \<Rightarrow>
          if \<not> suffix ''.md'' (path activeFile) \<and> \<not> suffix ''.canvas'' (path activeFile) then
            (Inr (), emit (Notice ''Active file must be a markdown or canvas file'') st)
          else
            (case renameAttachmentsForActiveMD h activeFile st of
               (Inl e, st') \<Rightarrow> (Inl e, st')
             | (Inr renamedCount, st') \<Rightarrow>
                 (Inr (), emit (Notice (countNotice renamedCount)) st')))"

section \<open>The Md5 class\<close>

text \<open>
  Modelled from the spec: the content hasher of section 4.1 (\<^verbatim>\<open>src/md5/md5.ts\<close> is not at
  hand).  The fingerprint is a fixed-length hexadecimal digest of the file's bytes; the class
  name and the lines 283-284 (\<^verbatim>\<open>crypto.createHash('md5') ... digest("hex")\<close>) name the
  digest, MD5, which is defined here as RFC 1321 does: the message is padded with a one bit,
  zeros and its length in bits as 64-bit little-endian, and every 64-byte block goes through
  the 64 steps of the compression function; the four state words are printed as 32 lower-case
  hexadecimal digits.  An \<open>Md5\<close> object holds the bytes appended so far; lines 286-288 make
  a new object, append the buffer and end it (\<open>Md5_hashBytes\<close>).
\<close>

type_synonym word32 = "32 word"

definition md5_K :: "word32 list" where
  "md5_K =
    [0xd76aa478, 0xe8c7b756, 0x242070db, 0xc1bdceee, 0xf57c0faf, 0x4787c62a, 0xa8304613, 0xfd469501,
     0x698098d8, 0x8b44f7af, 0xffff5bb1, 0x895cd7be, 0x6b901122, 0xfd987193, 0xa679438e, 0x49b40821,
     0xf61e2562, 0xc040b340, 0x265e5a51, 0xe9b6c7aa, 0xd62f105d, 0x02441453, 0xd8a1e681, 0xe7d3fbc8,
     0x21e1cde6, 0xc33707d6, 0xf4d50d87, 0x455a14ed, 0xa9e3e905, 0xfcefa3f8, 0x676f02d9, 0x8d2a4c8a,
     0xfffa3942, 0x8771f681, 0x6d9d6122, 0xfde5380c, 0xa4beea44, 0x4bdecfa9, 0xf6bb4b60, 0xbebfbc70,
     0x289b7ec6, 0xeaa127fa, 0xd4ef3085, 0x04881d05, 0xd9d4d039, 0xe6db99e5, 0x1fa27cf8, 0xc4ac5665,
     0xf4292244, 0x432aff97, 0xab9423a7, 0xfc93a039, 0x655b59c3, 0x8f0ccc92, 0xffeff47d, 0x85845dd1,
     0x6fa87e4f, 0xfe2ce6e0, 0xa3014314, 0x4e0811a1, 0xf7537e82, 0xbd3af235, 0x2ad7d2bb, 0xeb86d391]"

definition md5_S :: "nat list" where
  "md5_S =
    [7, 12, 17, 22, 7, 12, 17, 22, 7, 12, 17, 22, 7, 12, 17, 22,
     5, 9, 14, 20, 5, 9, 14, 20, 5, 9, 14, 20, 5, 9, 14, 20,
     4, 11, 16, 23, 4, 11, 16, 23, 4, 11, 16, 23, 4, 11, 16, 23,
     6, 10, 15, 21, 6, 10, 15, 21, 6, 10, 15, 21, 6, 10, 15, 21]"

definition rotl32 :: "nat \<Rightarrow> word32 \<Rightarrow> word32" where
  "rotl32 n x = (push_bit n x) OR (drop_bit (32 - n) x)"

definition word_of_le :: "bytes \<Rightarrow> word32" where
  "word_of_le bs = foldr (\<lambda>b acc. ucast b OR push_bit 8 acc) bs 0"

definition length_le_bytes :: "64 word \<Rightarrow> bytes" where
  "length_le_bytes n = map (\<lambda>i. ucast (drop_bit (8 * i) n)) [0..<8]"

fun chunks :: "nat \<Rightarrow> 'a list \<Rightarrow> 'a list list" where
  "chunks 0 xs = []"
| "chunks (Suc k) xs = (if xs = [] then [] else take (Suc k) xs # chunks (Suc k) (drop (Suc k) xs))"

definition md5_pad :: "bytes \<Rightarrow> bytes" where
  "md5_pad msg =
     msg @ [0x80] @ replicate ((119 - length msg mod 64) mod 64) 0
     @ length_le_bytes (word_of_nat (8 * length msg))"

type_synonym md5_regs = "word32 \<times> word32 \<times> word32 \<times> word32"

definition md5_step :: "word32 list \<Rightarrow> md5_regs \<Rightarrow> nat \<Rightarrow> md5_regs" where
  "md5_step m r i =
     (case r of (a, b, c, d) \<Rightarrow>
        let (f, g) =
              (if i < 16 then ((b AND c) OR (NOT b AND d), i)
               else if i < 32 then ((d AND b) OR (NOT d AND c), (5 * i + 1) mod 16)
               else if i < 48 then (b XOR c XOR d, (3 * i + 5) mod 16)
               else (c XOR (b OR NOT d), (7 * i) mod 16))
        in (d, b + rotl32 (md5_S ! i) (f + a + md5_K ! i + m ! g), b, c))"

definition md5_block :: "md5_regs \<Rightarrow> bytes \<Rightarrow> md5_regs" where
  "md5_block r blk =
     (let m = map word_of_le (chunks 4 blk)
      in case (r, foldl (md5_step m) r [0..<64]) of
           ((a0, b0, c0, d0), (a, b, c, d)) \<Rightarrow> (a0 + a, b0 + b, c0 + c, d0 + d))"

definition md5_init :: md5_regs where
  "md5_init = (0x67452301, 0xefcdab89, 0x98badcfe, 0x10325476)"

definition hexdigit :: "nat \<Rightarrow> char" where
  "hexdigit n = ''0123456789abcdef'' ! (n mod 16)"

definition hex_byte :: "8 word \<Rightarrow> string" where
  "hex_byte b = [hexdigit (unat b div 16), hexdigit (unat b mod 16)]"

definition word_le_bytes :: "word32 \<Rightarrow> bytes" where
  "word_le_bytes w = [ucast w, ucast (drop_bit 8 w), ucast (drop_bit 16 w), ucast (drop_bit 24 w)]"

definition md5_hex_of :: "md5_regs \<Rightarrow> string" where
  "md5_hex_of r =
     (case r of (a, b, c, d) \<Rightarrow>
        concat (map hex_byte (word_le_bytes a @ word_le_bytes b @ word_le_bytes c @ word_le_bytes d)))"

record Md5 =
  md5_data :: bytes

definition Md5_new :: Md5 where
  "Md5_new = \<lparr>md5_data = []\<rparr>"

definition Md5_appendByteArray :: "Md5 \<Rightarrow> bytes \<Rightarrow> Md5" where
  "Md5_appendByteArray md5 input = md5\<lparr>md5_data := md5_data md5 @ input\<rparr>"

definition Md5_end :: "Md5 \<Rightarrow> string" where
  "Md5_end md5 = md5_hex_of (foldl md5_block md5_init (chunks 64 (md5_pad (md5_data md5))))"

definition Md5_hashBytes :: "bytes \<Rightarrow> string" where
  "Md5_hashBytes buf = Md5_end (Md5_appendByteArray Md5_new buf)"

section \<open>What a run did\<close>

text \<open>The entries of the trace that change the vault, the notes an entry rewrote, and the
  entries a call added (\<open>since st st'\<close>, for the state \<open>st\<close> before the call and \<open>st'\<close> after
  it).\<close>

fun is_mutation :: "event \<Rightarrow> bool" where
  "is_mutation (VaultDelete p) = True"
| "is_mutation (VaultRename p q) = True"
| "is_mutation (UpdateChangedPathInCanvas n p q) = True"
| "is_mutation (UpdateChangedPathInNote n p q) = True"
| "is_mutation e = False"

fun updatedNote :: "event \<Rightarrow> string list" where
  "updatedNote (UpdateChangedPathInCanvas n p q) = [n]"
| "updatedNote (UpdateChangedPathInNote n p q) = [n]"
| "updatedNote e = []"

definition updatedNotes :: "event list \<Rightarrow> string list" where
  "updatedNotes evs = concat (map updatedNote evs)"

definition since :: "'w state \<Rightarrow> 'w state \<Rightarrow> event list" where
  "since st st' = drop (length (trace st)) (trace st')"

text \<open>The trace entry of one rewritten note (lines 123-127), and the entries that count
  as an action on an attachment: a rename or a delete.\<close>

definition updateEvent :: "string \<Rightarrow> string \<Rightarrow> string \<Rightarrow> event" where
  "updateEvent filePath validPath nt =
     (if suffix ''.canvas'' nt then UpdateChangedPathInCanvas nt filePath validPath
      else UpdateChangedPathInNote nt filePath validPath)"

fun is_action :: "event \<Rightarrow> bool" where
  "is_action (VaultDelete p) = True"
| "is_action (VaultRename p q) = True"
| "is_action e = False"

text \<open>Line 97: the candidate canonical path.\<close>

definition validPathOf :: "'w host \<Rightarrow> TFile \<Rightarrow> string \<Rightarrow> string" where
  "validPathOf h file validBaseName =
     lh_getFilePathWithRenamedBaseName h (path file) validBaseName"

text \<open>
  The conditions under which a call reaches line 97 with the fingerprint \<open>validBaseName\<close>
  and the lookup results \<open>mdNotes\<close> and \<open>canvasNotes\<close>: the file passes both filters (line
  75), its fingerprint can be computed and differs from its base name (lines 81-82), both
  lookups return (lines 87-88), and the linked-only policy does not skip it (lines 91-95).
\<close>

definition candidate ::
  "'w host \<Rightarrow> TFile \<Rightarrow> 'w state \<Rightarrow> string \<Rightarrow> string list option \<Rightarrow> string list option \<Rightarrow> bool" where
  "candidate h file st validBaseName mdNotes canvasNotes =
     (\<not> checkFilePathIsIgnored h (path file) \<and> checkFileTypeIsAllowed h (path file)
      \<and> generateValidBaseName h (world st) (path file) = Inr validBaseName
      \<and> path_basename h (path file) (path_extname h (path file)) \<noteq> validBaseName
      \<and> lh_getNotesThatHaveLinkToFile h (world st) (path file) = Inr mdNotes
      \<and> lh_getNotesThatHaveLinkToFileInCanvas h (world st) (path file) = Inr canvasNotes
      \<and> \<not> (collectAllNotes mdNotes canvasNotes = []
             \<and> renameOnlyLinkedAttachments (settings h)))"


definition passesFilters :: "'w host \<Rightarrow> TFile \<Rightarrow> bool" where
  "passesFilters h file =
     (\<not> checkFilePathIsIgnored h (path file) \<and> checkFileTypeIsAllowed h (path file))"

text \<open>A message mentions a path when the path occurs in it.\<close>

definition mentions :: "string \<Rightarrow> string \<Rightarrow> bool" where
  "mentions m p = sublist p m"

section \<open>A small vault\<close>

text \<open>
  A concrete host on which the plugin can be run: a vault that is a list of files with
  their bytes, a link index, and the paths on which reading, or deleting and renaming,
  fails.  It stands in for the collaborators of section 6 of the specification (storage,
  link resolution, document metadata) and is used to run the plugin on examples; the
  general theorems below quantify over every host.
\<close>

record vault =
  files :: "(string \<times> bytes) list"
  links :: "(string \<times> string list) list"
  unreadable :: "string list"
  locked :: "string list"
  active :: "string option"

text \<open>Modelled from the spec: the path utility of section 4.2 (\<^verbatim>\<open>src/path.ts\<close> and
  \<^verbatim>\<open>getFilePathWithRenamedBaseName\<close> of \<^verbatim>\<open>src/links-handler.ts\<close> are not at hand): the
  extension is what follows the last dot of the file name, the base name is the file name
  without it, and \<open>sv_withBaseName\<close> replaces the stem, keeping directory and extension.\<close>

definition sv_fileName :: "string \<Rightarrow> string" where
  "sv_fileName p = rev (takeWhile (\<lambda>c. c \<noteq> CHR ''/'') (rev p))"

definition sv_dir :: "string \<Rightarrow> string" where
  "sv_dir p = rev (dropWhile (\<lambda>c. c \<noteq> CHR ''/'') (rev p))"

definition sv_extname :: "string \<Rightarrow> string" where
  "sv_extname p =
     (let n = sv_fileName p; e = rev (takeWhile (\<lambda>c. c \<noteq> CHR ''.'') (rev n))
      in if CHR ''.'' \<in> set n \<and> length e + 1 < length n then ''.'' @ e else [])"

definition sv_basename :: "string \<Rightarrow> string \<Rightarrow> string" where
  "sv_basename p ext =
     (let n = sv_fileName p
      in if ext \<noteq> [] \<and> suffix ext n \<and> ext \<noteq> n then take (length n - length ext) n else n)"

definition sv_withBaseName :: "string \<Rightarrow> string \<Rightarrow> string" where
  "sv_withBaseName p newBase = sv_dir p @ newBase @ sv_extname p"

text \<open>Modelled from the spec: a content hasher for the examples.  Section 4.1 accepts any
  deterministic fixed-length hexadecimal digest of the bytes; so that the file names of the
  examples stay short, the small vault uses the sum of the bytes modulo 256, as two
  hexadecimal digits, where the plugin uses MD5.\<close>

definition sv_digest :: "bytes \<Rightarrow> string" where
  "sv_digest buf =
     (let s = unat (foldl (+) 0 buf) in [hexdigit (s div 16), hexdigit (s mod 16)])"

text \<open>The storage collaborator of section 6: look-up, reads, existence, delete and rename.
  A read fails on an unreadable or missing path; delete and rename fail on a locked path,
  delete on a missing one, rename onto an existing one.  A rename keeps the file's place
  in the listing.\<close>

definition sv_file :: "string \<Rightarrow> TFile" where
  "sv_file p = \<lparr>path = p, extension = drop 1 (sv_extname p)\<rparr>"

definition sv_find :: "vault \<Rightarrow> string \<Rightarrow> TFile option" where
  "sv_find v p = (case map_of (files v) p of None \<Rightarrow> None | Some b \<Rightarrow> Some (sv_file p))"

definition sv_readBinary :: "vault \<Rightarrow> TFile option \<Rightarrow> error + bytes" where
  "sv_readBinary v file =
     (case file of
        None \<Rightarrow> Inl (TypeError ''Cannot read properties of null (reading path)'')
      | Some f \<Rightarrow>
          if path f \<in> set (unreadable v) then Inl (Error ''EIO: i/o error, read'')
          else (case map_of (files v) (path f) of
                  None \<Rightarrow> Inl (Error ''ENOENT: no such file or directory'')
                | Some b \<Rightarrow> Inr b))"

definition sv_read :: "vault \<Rightarrow> TFile \<Rightarrow> error + string" where
  "sv_read v f =
     (case sv_readBinary v (Some f) of
        Inl e \<Rightarrow> Inl e
      | Inr b \<Rightarrow> Inr (map (\<lambda>x. char_of (unat x)) b))"

definition sv_exists :: "vault \<Rightarrow> string \<Rightarrow> error + bool" where
  "sv_exists v p = Inr (map_of (files v) p \<noteq> None)"

definition sv_delete :: "vault \<Rightarrow> TFile \<Rightarrow> error + vault" where
  "sv_delete v f =
     (if path f \<in> set (locked v) then Inl (Error ''EBUSY: resource busy or locked'')
      else if map_of (files v) (path f) = None then
        Inl (Error ''ENOENT: no such file or directory'')
      else Inr (v\<lparr>files := filter (\<lambda>(p, b). p \<noteq> path f) (files v)\<rparr>))"

definition sv_rename :: "vault \<Rightarrow> TFile \<Rightarrow> string \<Rightarrow> error + vault" where
  "sv_rename v f newPath =
     (if path f \<in> set (locked v) then Inl (Error ''EBUSY: resource busy or locked'')
      else if map_of (files v) newPath \<noteq> None then
        Inl (Error ''Destination file already exists!'')
      else Inr (v\<lparr>files := map (\<lambda>(p, b). (if p = path f then newPath else p, b)) (files v)\<rparr>))"

text \<open>Modelled from the spec: the link index and the reference rewriter of sections 4.3 and
  4.4 (\<^verbatim>\<open>src/links-handler.ts\<close> is not at hand).  The index \<open>links\<close> gives, for every
  document, the paths its links resolve to.  The documents that reference a path are those
  whose entry holds it, prose and canvas documents apart; rewriting a document replaces
  the old path by the new one in its entry and touches no other entry.\<close>

definition sv_notes :: "bool \<Rightarrow> vault \<Rightarrow> string \<Rightarrow> error + string list option" where
  "sv_notes canvas v p =
     Inr (Some (map fst
       (filter (\<lambda>(d, ts). suffix ''.canvas'' d = canvas \<and> p \<in> set ts) (links v))))"

definition sv_update :: "vault \<Rightarrow> string \<Rightarrow> string \<Rightarrow> string \<Rightarrow> error + vault" where
  "sv_update v note oldPath newPath =
     Inr (v\<lparr>links :=
       map (\<lambda>(d, ts). (d, if d = note then map (\<lambda>t. if t = oldPath then newPath else t) ts else ts))
         (links v)\<rparr>)"

text \<open>A stand-in for \<^verbatim>\<open>JSON.parse\<close> that knows two texts, the empty canvas
  \<^verbatim>\<open>{"nodes":[]}\<close> and a canvas with one file node for \<^verbatim>\<open>b.png\<close>, and rejects every
  other text, as the built-in rejects malformed JSON.\<close>

definition dq :: string where
  "dq = [CHR 0x22]"

definition sv_canvas_empty :: string where
  "sv_canvas_empty = ''{'' @ dq @ ''nodes'' @ dq @ '':[]}''"

definition sv_canvas_one :: string where
  "sv_canvas_one =
     ''{'' @ dq @ ''nodes'' @ dq @ '':[{'' @ dq @ ''id'' @ dq @ '':'' @ dq @ ''n1'' @ dq
     @ '','' @ dq @ ''type'' @ dq @ '':'' @ dq @ ''file'' @ dq
     @ '','' @ dq @ ''file'' @ dq @ '':'' @ dq @ ''b.png'' @ dq @ ''}]}''"

definition sv_JSON_parse :: "string \<Rightarrow> error + json" where
  "sv_JSON_parse s =
     (if s = sv_canvas_empty then Inr (JObject [(''nodes'', JArray [])])
      else if s = sv_canvas_one then
        Inr (JObject [(''nodes'',
               JArray [JObject [(''id'', JString ''n1''), (''type'', JString ''file''),
                                (''file'', JString ''b.png'')]])])
      else Inl (SyntaxError ''Unexpected end of JSON input''))"

text \<open>Modelled from the spec: \<^verbatim>\<open>resolveRelative\<close> of section 4.2
  (\<^verbatim>\<open>getFullPathForLink\<close> of \<^verbatim>\<open>src/links-handler.ts\<close> is not at hand): a link is resolved
  against the directory of the document that contains it, and a leading \<^verbatim>\<open>/\<close> makes it
  absolute in the vault.  A link that is not a string has no string methods.\<close>

definition sv_fullPath :: "json \<Rightarrow> string \<Rightarrow> error + string" where
  "sv_fullPath link owningNotePath =
     (case link of
        JString s \<Rightarrow>
          Inr (if prefix ''/'' s then drop 1 s else sv_dir owningNotePath @ s)
      | _ \<Rightarrow> Inl (TypeError ''link.replace is not a function''))"

definition sv_host :: "PluginSettings \<Rightarrow> vault host" where
  "sv_host cfg =
     \<lparr>settings = cfg,
      path_extname = sv_extname,
      path_basename = sv_basename,
      md5_hex = sv_digest,
      vault_getFiles = (\<lambda>v. map (\<lambda>(p, b). sv_file p) (files v)),
      vault_getAbstractFileByPath = sv_find,
      vault_readBinary = sv_readBinary,
      vault_read = sv_read,
      vault_delete = sv_delete,
      vault_rename = sv_rename,
      adapter_exists = sv_exists,
      workspace_getActiveFile = (\<lambda>v. map_option sv_file (active v)),
      workspace_hasActiveLeaf = (\<lambda>v. active v \<noteq> None),
      metadataCache_resolvedLinks = (\<lambda>v p. map_of (links v) p),
      metadataCache_getFileCache = (\<lambda>v f. Inr ()),
      JSON_parse = sv_JSON_parse,
      lh_getFileByPath = sv_find,
      lh_getNotesThatHaveLinkToFile = sv_notes False,
      lh_getNotesThatHaveLinkToFileInCanvas = sv_notes True,
      lh_getFilePathWithRenamedBaseName = sv_withBaseName,
      lh_getFullPathForLink = sv_fullPath,
      lh_updateChangedPathInCanvas = sv_update,
      lh_updateChangedPathInNote = sv_update\<rparr>"

definition cfg_default :: PluginSettings where
  "cfg_default =
     \<lparr>ignoreFolders = [''.git/'', ''.obsidian/''],
      renameFileTypes = [''png'', ''jpg'', ''gif''],
      renameOnlyLinkedAttachments = False,
      mergeTheSameAttachments = False\<rparr>"

definition start :: "vault \<Rightarrow> vault state" where
  "start v = \<lparr>world = v, trace = []\<rparr>"

subsection \<open>Example vaults\<close>

definition cfg_merge :: PluginSettings where
  "cfg_merge =
     \<lparr>ignoreFolders = [''.git/'', ''.obsidian/''],
      renameFileTypes = [''png'', ''jpg'', ''gif''],
      renameOnlyLinkedAttachments = False,
      mergeTheSameAttachments = True\<rparr>"

definition cfg_linked_only :: PluginSettings where
  "cfg_linked_only =
     \<lparr>ignoreFolders = [''.git/'', ''.obsidian/''],
      renameFileTypes = [''png'', ''jpg'', ''gif''],
      renameOnlyLinkedAttachments = True,
      mergeTheSameAttachments = False\<rparr>"

definition cfg_gate :: PluginSettings where
  "cfg_gate =
     \<lparr>ignoreFolders = [''arch''],
      renameFileTypes = [''png''],
      renameOnlyLinkedAttachments = False,
      mergeTheSameAttachments = False\<rparr>"

text \<open>\<^verbatim>\<open>img/x.png\<close> has the fingerprint \<^verbatim>\<open>01\<close>; the file that holds the name
  \<^verbatim>\<open>img/01.png\<close> has other bytes, with the fingerprint \<^verbatim>\<open>02\<close>.\<close>

definition v_clash :: vault where
  "v_clash =
     \<lparr>files = [(''img/x.png'', [1]), (''img/01.png'', [2]), (''n.md'', [3])],
      links = [(''n.md'', [''img/x.png''])],
      unreadable = [], locked = [], active = None\<rparr>"

text \<open>The same clash, with no document that links to \<^verbatim>\<open>img/x.png\<close>.\<close>

definition v_unlinked_clash :: vault where
  "v_unlinked_clash =
     \<lparr>files = [(''img/x.png'', [1]), (''img/01.png'', [2])],
      links = [],
      unreadable = [], locked = [], active = None\<rparr>"

text \<open>\<^verbatim>\<open>a.png\<close> and \<^verbatim>\<open>03.png\<close> hold the same bytes, with the fingerprint \<^verbatim>\<open>03\<close>; in
  the second vault \<^verbatim>\<open>a.png\<close> cannot be deleted or renamed.\<close>

definition v_duplicate :: vault where
  "v_duplicate =
     \<lparr>files = [(''a.png'', [1, 2]), (''03.png'', [1, 2]), (''n.md'', [9])],
      links = [(''n.md'', [''a.png''])],
      unreadable = [], locked = [], active = None\<rparr>"

definition v_duplicate_locked :: vault where
  "v_duplicate_locked =
     \<lparr>files = [(''a.png'', [1, 2]), (''03.png'', [1, 2]), (''n.md'', [9])],
      links = [(''n.md'', [''a.png''])],
      unreadable = [], locked = [''a.png''], active = None\<rparr>"

text \<open>One attachment, linked from one note; in the second vault it cannot be renamed.\<close>

definition v_single :: vault where
  "v_single =
     \<lparr>files = [(''img/x.png'', [1]), (''n.md'', [3])],
      links = [(''n.md'', [''img/x.png''])],
      unreadable = [], locked = [], active = None\<rparr>"

definition v_single_locked :: vault where
  "v_single_locked =
     \<lparr>files = [(''img/x.png'', [1]), (''n.md'', [3])],
      links = [(''n.md'', [''img/x.png''])],
      unreadable = [], locked = [''img/x.png''], active = None\<rparr>"

text \<open>Two attachments; reading the first one fails.\<close>

definition v_unreadable :: vault where
  "v_unreadable =
     \<lparr>files = [(''a.png'', [1]), (''b.png'', [2])],
      links = [],
      unreadable = [''a.png''], locked = [], active = None\<rparr>"

text \<open>The active document is a canvas whose text is the single character \<^verbatim>\<open>{\<close> (the
  byte 123).\<close>

definition v_bad_canvas :: vault where
  "v_bad_canvas =
     \<lparr>files = [(''board.canvas'', [123]), (''b.png'', [2])],
      links = [],
      unreadable = [], locked = [], active = Some ''board.canvas''\<rparr>"

text \<open>The same vault with a well-formed canvas that has one file node for \<^verbatim>\<open>b.png\<close>.\<close>

definition v_good_canvas :: vault where
  "v_good_canvas =
     \<lparr>files = [(''board.canvas'', map (\<lambda>c. word_of_nat (of_char c)) sv_canvas_one),
               (''b.png'', [2])],
      links = [],
      unreadable = [], locked = [], active = Some ''board.canvas''\<rparr>"


text \<open>The small vault with MD5 as its digest, and two vaults that each hold a file with the
  bytes of \<^verbatim>\<open>abc\<close>, at different paths.\<close>

definition md5_host :: "vault host" where
  "md5_host = (sv_host cfg_default)\<lparr>md5_hex := Md5_hashBytes\<rparr>"

definition v_abc :: vault where
  "v_abc =
     \<lparr>files = [(''img/abc.png'', [97, 98, 99]), (''n.md'', [3])],
      links = [(''n.md'', [''img/abc.png''])],
      unreadable = [], locked = [], active = None\<rparr>"

definition v_abc_copy :: vault where
  "v_abc_copy =
     \<lparr>files = [(''other.md'', [4]), (''copies/of abc.png'', [97, 98, 99])],
      links = [],
      unreadable = [], locked = [''copies/of abc.png''], active = Some ''other.md''\<rparr>"

text \<open>An attachment referenced by a note and two canvases, on a host where rewriting
  \<^verbatim>\<open>b.canvas\<close> fails.\<close>

definition v_three_refs :: vault where
  "v_three_refs =
     \<lparr>files = [(''img/x.png'', [1]), (''a.md'', [3]), (''b.canvas'', [4]), (''c.canvas'', [5])],
      links = [(''a.md'', [''img/x.png'']), (''b.canvas'', [''img/x.png'']),
               (''c.canvas'', [''img/x.png''])],
      unreadable = [], locked = [], active = None\<rparr>"

definition host_rewrite_fails :: "vault host" where
  "host_rewrite_fails =
     (sv_host cfg_default)
       \<lparr>lh_updateChangedPathInCanvas :=
          (\<lambda>v nt oldPath newPath.
             if nt = ''b.canvas'' then Inl (Error ''EACCES: permission denied'')
             else sv_update v nt oldPath newPath)\<rparr>"



section \<open>Lemmas\<close>

lemma trace_emit: "trace (emit e st) = trace st @ [e]"
  by (simp add: emit_def)

lemma world_emit: "world (emit e st) = world st"
  by (simp add: emit_def)

lemma since_self: "since st st = []"
  by (simp add: since_def)

lemma since_append: "trace st' = trace st @ evs \<Longrightarrow> since st st' = evs"
  by (simp add: since_def)


lemma updateReferences_trace:
  "updateReferences h ns f v st = (r, st') \<Longrightarrow>
   \<exists>evs. trace st' = trace st @ evs \<and> list_all is_mutation evs
        \<and> (r = Inr () \<longrightarrow> updatedNotes evs = ns)"
proof (induction ns arbitrary: st)
  case Nil
  then show ?case by (auto simp: updatedNotes_def)
next
  case (Cons nt rest)
  show ?case
  proof (cases "suffix ''.canvas'' nt")
    case True
    show ?thesis
    proof (cases "lh_updateChangedPathInCanvas h (world st) nt f v")
      case (Inl e)
      with Cons.prems True show ?thesis by (auto simp: updatedNotes_def)
    next
      case (Inr w')
      let ?st1 = "emit (UpdateChangedPathInCanvas nt f v) (st\<lparr>world := w'\<rparr>)"
      from Cons.prems True Inr have "updateReferences h rest f v ?st1 = (r, st')" by simp
      from Cons.IH[OF this] obtain evs where
        e: "trace st' = trace ?st1 @ evs" "list_all is_mutation evs"
           "r = Inr () \<longrightarrow> updatedNotes evs = rest" by blast
      have "trace st' = trace st @ (UpdateChangedPathInCanvas nt f v # evs)"
        using e(1) by (simp add: trace_emit)
      moreover have "list_all is_mutation (UpdateChangedPathInCanvas nt f v # evs)"
        using e(2) by simp
      moreover have "r = Inr () \<longrightarrow> updatedNotes (UpdateChangedPathInCanvas nt f v # evs) = nt # rest"
        using e(3) by (simp add: updatedNotes_def)
      ultimately show ?thesis by blast
    qed
  next
    case False
    show ?thesis
    proof (cases "lh_updateChangedPathInNote h (world st) nt f v")
      case (Inl e)
      with Cons.prems False show ?thesis by (auto simp: updatedNotes_def)
    next
      case (Inr w')
      let ?st1 = "emit (UpdateChangedPathInNote nt f v) (st\<lparr>world := w'\<rparr>)"
      from Cons.prems False Inr have "updateReferences h rest f v ?st1 = (r, st')" by simp
      from Cons.IH[OF this] obtain evs where
        e: "trace st' = trace ?st1 @ evs" "list_all is_mutation evs"
           "r = Inr () \<longrightarrow> updatedNotes evs = rest" by blast
      have "trace st' = trace st @ (UpdateChangedPathInNote nt f v # evs)"
        using e(1) by (simp add: trace_emit)
      moreover have "list_all is_mutation (UpdateChangedPathInNote nt f v # evs)"
        using e(2) by simp
      moreover have "r = Inr () \<longrightarrow> updatedNotes (UpdateChangedPathInNote nt f v # evs) = nt # rest"
        using e(3) by (simp add: updatedNotes_def)
      ultimately show ?thesis by blast
    qed
  qed
qed

lemma candidate_dispatch:
  assumes "candidate h file st vb md cv"
  shows "renameAttachmentIfNeeded h file st =
    (case adapter_exists h (world st) (validPathOf h file vb) of
       Inl e \<Rightarrow> (Inl e, st)
     | Inr ex \<Rightarrow>
         if ex then mergeIntoExisting h file vb (collectAllNotes md cv) (validPathOf h file vb) st
         else renameToValidPath h file (collectAllNotes md cv) (validPathOf h file vb) st)"
  using assms
  by (auto simp: candidate_def renameAttachmentIfNeeded_def processAttachment_def Let_def
      validPathOf_def split: sum.splits)



lemma checkFilePathIsIgnored_loop_iff:
  "checkFilePathIsIgnored_loop folders p \<longleftrightarrow> (\<exists>folder \<in> set folders. prefix folder p)"
  by (induction folders) auto

lemma checkFileTypeIsAllowed_loop_iff:
  "checkFileTypeIsAllowed_loop exts p \<longleftrightarrow> (\<exists>ext \<in> set exts. suffix (''.'' @ ext) p)"
  by (induction exts) auto

lemma renameToValidPath_cases:
  assumes "renameToValidPath h file ns vp st = (r, st')"
  shows "(\<exists>e. vault_rename h (world st) file vp = Inl e \<and> r = Inr False
              \<and> st' = emit (ConsoleError (msg_cant_rename (path file) vp e)) st)
       \<or> (\<exists>w' evs. vault_rename h (world st) file vp = Inr w' \<and> list_all is_mutation evs
              \<and> ((r = Inr True \<and> updatedNotes evs = ns
                   \<and> trace st' = trace st @ VaultRename (path file) vp # evs
                                   @ [ConsoleLog (msg_renamed (path file) vp)])
                  \<or> ((\<exists>e. r = Inl e) \<and> trace st' = trace st @ VaultRename (path file) vp # evs)))"
proof (cases "vault_rename h (world st) file vp")
  case (Inl e)
  with assms show ?thesis by (simp add: renameToValidPath_def)
next
  case (Inr w')
  let ?st1 = "emit (VaultRename (path file) vp) (st\<lparr>world := w'\<rparr>)"
  obtain r1 st1 where u: "updateReferences h ns (path file) vp ?st1 = (r1, st1)"
    by (cases "updateReferences h ns (path file) vp ?st1")
  from updateReferences_trace[OF u] obtain evs where
    e: "trace st1 = trace ?st1 @ evs" "list_all is_mutation evs"
       "r1 = Inr () \<longrightarrow> updatedNotes evs = ns" by blast
  have t1: "trace st1 = trace st @ VaultRename (path file) vp # evs"
    using e(1) by (simp add: trace_emit)
  show ?thesis
  proof (cases r1)
    case (Inl err)
    with assms Inr u have "r = Inl err" "st' = st1" by (simp_all add: renameToValidPath_def)
    with Inr e(2) t1 show ?thesis by auto
  next
    case (Inr u1)
    with assms \<open>vault_rename h (world st) file vp = Inr w'\<close> u
    have "r = Inr True" "st' = emit (ConsoleLog (msg_renamed (path file) vp)) st1"
      by (simp_all add: renameToValidPath_def)
    moreover have "updatedNotes evs = ns" using e(3) Inr by simp
    ultimately show ?thesis
      using \<open>vault_rename h (world st) file vp = Inr w'\<close> e(2) t1 by (auto simp: trace_emit)
  qed
qed

lemma mergeIntoExisting_cases:
  assumes "mergeIntoExisting h file vb ns vp st = (r, st')"
  shows "(\<exists>e. generateValidBaseName h (world st) vp = Inl e \<and> r = Inl e \<and> st' = st)
       \<or> (\<exists>other. generateValidBaseName h (world st) vp = Inr other \<and> other \<noteq> vb
              \<and> r = Inr False \<and> st' = emit (ConsoleWarn (msg_clash (path file) vp)) st)
       \<or> (generateValidBaseName h (world st) vp = Inr vb
              \<and> \<not> mergeTheSameAttachments (settings h)
              \<and> r = Inr False \<and> st' = emit (ConsoleWarn (msg_duplicate (path file) vp)) st)
       \<or> (generateValidBaseName h (world st) vp = Inr vb
              \<and> mergeTheSameAttachments (settings h)
              \<and> (\<exists>e. vault_delete h (world st) file = Inl e \<and> r = Inr False
                     \<and> st' = emit (ConsoleError (msg_cant_delete (path file) e)) st))
       \<or> (generateValidBaseName h (world st) vp = Inr vb
              \<and> mergeTheSameAttachments (settings h)
              \<and> (\<exists>w' evs. vault_delete h (world st) file = Inr w' \<and> list_all is_mutation evs
                  \<and> ((r = Inr True \<and> updatedNotes evs = ns
                       \<and> trace st' = trace st @ VaultDelete (path file) # evs
                                       @ [ConsoleLog (msg_merged (path file) vp)])
                      \<or> ((\<exists>e. r = Inl e) \<and> trace st' = trace st @ VaultDelete (path file) # evs))))"
proof (cases "generateValidBaseName h (world st) vp")
  case (Inl e)
  with assms show ?thesis by (simp add: mergeIntoExisting_def)
next
  case g: (Inr other)
  show ?thesis
  proof (cases "other = vb")
    case False
    with assms g show ?thesis by (simp add: mergeIntoExisting_def)
  next
    case same: True
    show ?thesis
    proof (cases "mergeTheSameAttachments (settings h)")
      case False
      with assms g same show ?thesis by (simp add: mergeIntoExisting_def)
    next
      case m: True
      show ?thesis
      proof (cases "vault_delete h (world st) file")
        case (Inl e)
        with assms g same m show ?thesis by (simp add: mergeIntoExisting_def)
      next
        case d: (Inr w')
        let ?st1 = "emit (VaultDelete (path file)) (st\<lparr>world := w'\<rparr>)"
        obtain r1 st1 where u: "updateReferences h ns (path file) vp ?st1 = (r1, st1)"
          by (cases "updateReferences h ns (path file) vp ?st1")
        from updateReferences_trace[OF u] obtain evs where
          e: "trace st1 = trace ?st1 @ evs" "list_all is_mutation evs"
             "r1 = Inr () \<longrightarrow> updatedNotes evs = ns" by blast
        have t1: "trace st1 = trace st @ VaultDelete (path file) # evs"
          using e(1) by (simp add: trace_emit)
        show ?thesis
        proof (cases r1)
          case (Inl err)
          with assms g same m d u have "r = Inl err" "st' = st1"
            by (simp_all add: mergeIntoExisting_def)
          with g same m d e(2) t1 show ?thesis by auto
        next
          case (Inr u1)
          with assms g same m d u
          have "r = Inr True" "st' = emit (ConsoleLog (msg_merged (path file) vp)) st1"
            by (simp_all add: mergeIntoExisting_def)
          moreover have "updatedNotes evs = ns" using e(3) Inr by simp
          ultimately show ?thesis
            using g same m d e(2) t1 by (auto simp: trace_emit)
        qed
      qed
    qed
  qed
qed

lemma updatedNotes_Cons_other [simp]:
  "updatedNotes (VaultDelete p # evs) = updatedNotes evs"
  "updatedNotes (VaultRename p q # evs) = updatedNotes evs"
  "updatedNotes (ConsoleLog m # evs) = updatedNotes evs"
  "updatedNotes [] = []"
  by (simp_all add: updatedNotes_def)



lemma renameAttachmentIfNeeded_cases:
  assumes "renameAttachmentIfNeeded h file st = (r, st')"
  shows "(st' = st \<and> (r = Inr False \<or> (\<exists>e. r = Inl e)))
       \<or> (\<exists>vb ns vp. mergeIntoExisting h file vb ns vp st = (r, st'))
       \<or> (\<exists>ns vp. renameToValidPath h file ns vp st = (r, st'))"
proof (cases "checkFilePathIsIgnored h (path file) \<or> \<not> checkFileTypeIsAllowed h (path file)")
  case True
  with assms have "r = Inr False" "st' = st"
    by (auto simp: renameAttachmentIfNeeded_def split: if_splits)
  then show ?thesis by simp
next
  case False
  with assms have p: "processAttachment h file st = (r, st')"
    by (simp add: renameAttachmentIfNeeded_def)
  show ?thesis
  proof (cases "generateValidBaseName h (world st) (path file)")
    case (Inl e)
    with p have "r = Inl e" "st' = st"
      by (simp_all add: processAttachment_def)
    then show ?thesis by blast
  next
    case g: (Inr vb)
    show ?thesis
    proof (cases "path_basename h (path file) (path_extname h (path file)) = vb")
      case True
      with p g have "r = Inr False" "st' = st"
        by (simp_all add: processAttachment_def)
      then show ?thesis by blast
    next
      case nb: False
      show ?thesis
      proof (cases "lh_getNotesThatHaveLinkToFile h (world st) (path file)")
        case (Inl e)
        with p g nb have "r = Inl e" "st' = st"
          by (simp_all add: processAttachment_def)
        then show ?thesis by blast
      next
        case m: (Inr md)
        show ?thesis
        proof (cases "lh_getNotesThatHaveLinkToFileInCanvas h (world st) (path file)")
          case (Inl e)
          with p g nb m have "r = Inl e" "st' = st"
            by (simp_all add: processAttachment_def)
          then show ?thesis by blast
        next
          case c: (Inr cv)
          show ?thesis
          proof (cases "collectAllNotes md cv = [] \<and> renameOnlyLinkedAttachments (settings h)")
            case True
            with p g nb m c have "r = Inr False" "st' = st"
              by (simp_all add: processAttachment_def)
            then show ?thesis by blast
          next
            case pol: False
            show ?thesis
            proof (cases "adapter_exists h (world st)
                            (lh_getFilePathWithRenamedBaseName h (path file) vb)")
              case (Inl e)
              with p g nb m c pol have "r = Inl e" "st' = st"
                by (simp_all add: processAttachment_def)
              then show ?thesis by blast
            next
              case x: (Inr ex)
              show ?thesis
              proof (cases ex)
                case True
                with p g nb m c pol x
                have "mergeIntoExisting h file vb (collectAllNotes md cv)
                        (lh_getFilePathWithRenamedBaseName h (path file) vb) st = (r, st')"
                  by (simp add: processAttachment_def)
                then show ?thesis by blast
              next
                case False
                with p g nb m c pol x
                have "renameToValidPath h file (collectAllNotes md cv)
                        (lh_getFilePathWithRenamedBaseName h (path file) vb) st = (r, st')"
                  by (simp add: processAttachment_def)
                then show ?thesis by blast
              qed
            qed
          qed
        qed
      qed
    qed
  qed
qed

lemma list_ex_mutation_console [simp]:
  "\<not> is_mutation (ConsoleWarn m)" "\<not> is_mutation (ConsoleError m)"
  "\<not> is_mutation (ConsoleLog m)" "\<not> is_mutation (Notice m)"
  by simp_all

lemma sublist_mid: "sublist p (a @ p @ b)"
  by (auto simp: sublist_def)

lemma sublist_msgs:
  "sublist p (msg_clash p q)" "sublist q (msg_clash p q)"
  "sublist p (msg_duplicate p q)" "sublist q (msg_duplicate p q)"
  "sublist p (msg_cant_rename p q e)" "sublist q (msg_cant_rename p q e)"
  "sublist (error_toString e) (msg_cant_rename p q e)"
  "sublist p (msg_cant_delete p e)" "sublist (error_toString e) (msg_cant_delete p e)"
proof -
  show "sublist p (msg_clash p q)"
    unfolding msg_clash_def by (rule sublist_mid)
  show "sublist q (msg_clash p q)"
    unfolding msg_clash_def
    using sublist_mid[of q "''Unique attachments: cant rename file \<newline>   '' @ p @ ''\<newline>    to\<newline>   ''"]
    by (simp only: append_assoc)
  show "sublist p (msg_duplicate p q)"
    unfolding msg_duplicate_def by (rule sublist_mid)
  show "sublist q (msg_duplicate p q)"
    unfolding msg_duplicate_def
    using sublist_mid[of q "''Unique attachments: cant rename file \<newline>   '' @ p @ ''\<newline>    to\<newline>   ''"]
    by (simp only: append_assoc)
  show "sublist p (msg_cant_rename p q e)"
    unfolding msg_cant_rename_def by (rule sublist_mid)
  show "sublist q (msg_cant_rename p q e)"
    unfolding msg_cant_rename_def
    using sublist_mid[of q "''Unique attachments: cant rename file \<newline>   '' @ p @ ''\<newline>   to\<newline>   ''"]
    by (simp only: append_assoc)
  show "sublist (error_toString e) (msg_cant_rename p q e)"
    unfolding msg_cant_rename_def
    using sublist_mid[of "error_toString e" "''Unique attachments: cant rename file \<newline>   '' @ p @ ''\<newline>   to\<newline>   '' @ q @ ''   \<newline>''" "[]"]
    by (simp only: append_assoc append_Nil2)
  show "sublist p (msg_cant_delete p e)"
    unfolding msg_cant_delete_def by (rule sublist_mid)
  show "sublist (error_toString e) (msg_cant_delete p e)"
    unfolding msg_cant_delete_def
    using sublist_mid[of "error_toString e" "''Unique attachments: cant delete duplicate file '' @ p @ ''.\<newline>''" "[]"]
    by (simp only: append_assoc append_Nil2)
qed

lemma since_emit: "since st (emit e st) = [e]"
  by (simp add: since_def emit_def)

lemma renameAll_loop_step:
  "renameAttachmentIfNeeded h file st = (Inr False, st') \<Longrightarrow>
   renameAll_loop h (file # rest) n st = renameAll_loop h rest n st'"
  by simp

lemma renameAll_loop_raise:
  "renameAttachmentIfNeeded h file st = (Inl e, st') \<Longrightarrow>
   renameAll_loop h (file # rest) n st = (Inl e, st')"
  by simp



lemma updateReferences_events:
  "updateReferences h ns f v st = (r, st') \<Longrightarrow>
   \<exists>ds. prefix ds ns \<and> trace st' = trace st @ map (updateEvent f v) ds
       \<and> (r = Inr () \<longrightarrow> ds = ns)"
proof (induction ns arbitrary: st)
  case Nil
  then show ?case by auto
next
  case (Cons nt rest)
  let ?call = "if suffix ''.canvas'' nt
               then lh_updateChangedPathInCanvas h (world st) nt f v
               else lh_updateChangedPathInNote h (world st) nt f v"
  show ?case
  proof (cases ?call)
    case (Inl e)
    with Cons.prems have "r = Inl e" "st' = st" by (auto split: if_splits)
    then have "prefix [] (nt # rest) \<and> trace st' = trace st @ map (updateEvent f v) []
               \<and> (r = Inr () \<longrightarrow> [] = nt # rest)" by simp
    then show ?thesis by blast
  next
    case (Inr w')
    let ?st1 = "emit (updateEvent f v nt) (st\<lparr>world := w'\<rparr>)"
    from Cons.prems Inr have "updateReferences h rest f v ?st1 = (r, st')"
      by (auto simp: updateEvent_def split: if_splits)
    from Cons.IH[OF this] obtain ds where
      d: "prefix ds rest" "trace st' = trace ?st1 @ map (updateEvent f v) ds"
         "r = Inr () \<longrightarrow> ds = rest" by blast
    have "prefix (nt # ds) (nt # rest)" using d(1) by simp
    moreover have "trace st' = trace st @ map (updateEvent f v) (nt # ds)"
      using d(2) by (simp add: trace_emit)
    moreover have "r = Inr () \<longrightarrow> nt # ds = nt # rest" using d(3) by simp
    ultimately show ?thesis by blast
  qed
qed

lemma not_action_updateEvent: "\<not> is_action (updateEvent f v nt)"
  by (simp add: updateEvent_def)

lemma filter_action_updates: "filter is_action (map (updateEvent f v) ds) = []"
  by (induction ds) (simp_all add: not_action_updateEvent)

lemma mergeIntoExisting_True_trace:
  assumes "mergeIntoExisting h file vb ns vp st = (Inr True, st')"
  shows "trace st' = trace st @ VaultDelete (path file) # map (updateEvent (path file) vp) ns
                       @ [ConsoleLog (msg_merged (path file) vp)]"
proof -
  from assms obtain w' where d: "vault_delete h (world st) file = Inr w'"
    and g: "generateValidBaseName h (world st) vp = Inr vb"
    and m: "mergeTheSameAttachments (settings h)"
    by (auto simp: mergeIntoExisting_def split: sum.splits if_splits)
  let ?st1 = "emit (VaultDelete (path file)) (st\<lparr>world := w'\<rparr>)"
  obtain r1 st1 where u: "updateReferences h ns (path file) vp ?st1 = (r1, st1)"
    by (cases "updateReferences h ns (path file) vp ?st1")
  with assms d g m have r1: "r1 = Inr ()"
    and s: "st' = emit (ConsoleLog (msg_merged (path file) vp)) st1"
    by (auto simp: mergeIntoExisting_def split: sum.splits)
  from updateReferences_events[OF u] r1
  have "trace st1 = trace ?st1 @ map (updateEvent (path file) vp) ns" by auto
  with s show ?thesis by (simp add: trace_emit)
qed

lemma renameToValidPath_True_trace:
  assumes "renameToValidPath h file ns vp st = (Inr True, st')"
  shows "trace st' = trace st @ VaultRename (path file) vp # map (updateEvent (path file) vp) ns
                       @ [ConsoleLog (msg_renamed (path file) vp)]"
proof -
  from assms obtain w' where d: "vault_rename h (world st) file vp = Inr w'"
    by (auto simp: renameToValidPath_def split: sum.splits)
  let ?st1 = "emit (VaultRename (path file) vp) (st\<lparr>world := w'\<rparr>)"
  obtain r1 st1 where u: "updateReferences h ns (path file) vp ?st1 = (r1, st1)"
    by (cases "updateReferences h ns (path file) vp ?st1")
  with assms d have r1: "r1 = Inr ()"
    and s: "st' = emit (ConsoleLog (msg_renamed (path file) vp)) st1"
    by (auto simp: renameToValidPath_def split: sum.splits)
  from updateReferences_events[OF u] r1
  have "trace st1 = trace ?st1 @ map (updateEvent (path file) vp) ns" by auto
  with s show ?thesis by (simp add: trace_emit)
qed

lemma renameAttachmentIfNeeded_trace_grows:
  assumes "renameAttachmentIfNeeded h file st = (r, st')"
  shows "trace st' = trace st @ since st st'"
proof -
  from renameAttachmentIfNeeded_cases[OF assms]
  consider (same) "st' = st"
    | (merge) vb ns vp where "mergeIntoExisting h file vb ns vp st = (r, st')"
    | (rename) ns vp where "renameToValidPath h file ns vp st = (r, st')"
    by blast
  then show ?thesis
  proof cases
    case same
    then show ?thesis by (simp add: since_def)
  next
    case merge
    from mergeIntoExisting_cases[OF this] show ?thesis
      by (auto simp: since_def emit_def)
  next
    case rename
    from renameToValidPath_cases[OF this] show ?thesis
      by (auto simp: since_def emit_def)
  qed
qed

lemma renameAttachmentIfNeeded_actions:
  assumes "renameAttachmentIfNeeded h file st = (Inr b, st')"
  shows "length (filter is_action (since st st')) = (if b then 1 else 0)"
proof (cases b)
  case False
  with assms have a: "renameAttachmentIfNeeded h file st = (Inr False, st')" by simp
  from renameAttachmentIfNeeded_cases[OF a]
  consider (same) "st' = st"
    | (merge) vb ns vp where "mergeIntoExisting h file vb ns vp st = (Inr False, st')"
    | (rename) ns vp where "renameToValidPath h file ns vp st = (Inr False, st')"
    by blast
  then have "filter is_action (since st st') = []"
  proof cases
    case same
    then show ?thesis by (simp add: since_def)
  next
    case merge
    from mergeIntoExisting_cases[OF this] show ?thesis
      by (auto simp: since_emit)
  next
    case rename
    from renameToValidPath_cases[OF this] show ?thesis
      by (auto simp: since_emit)
  qed
  with False show ?thesis by simp
next
  case True
  with assms have a: "renameAttachmentIfNeeded h file st = (Inr True, st')" by simp
  from renameAttachmentIfNeeded_cases[OF a]
  consider (merge) vb ns vp where "mergeIntoExisting h file vb ns vp st = (Inr True, st')"
    | (rename) ns vp where "renameToValidPath h file ns vp st = (Inr True, st')"
    by blast
  then have "length (filter is_action (since st st')) = 1"
  proof cases
    case merge
    from mergeIntoExisting_True_trace[OF this] show ?thesis
      by (simp add: since_def filter_action_updates)
  next
    case rename
    from renameToValidPath_True_trace[OF this] show ?thesis
      by (simp add: since_def filter_action_updates)
  qed
  with True show ?thesis by simp
qed

lemma since_trans:
  "trace st1 = trace st @ since st st1 \<Longrightarrow> trace st2 = trace st1 @ since st1 st2 \<Longrightarrow>
   since st st2 = since st st1 @ since st1 st2"
proof -
  assume a: "trace st1 = trace st @ since st st1" and b: "trace st2 = trace st1 @ since st1 st2"
  have "trace st2 = trace st @ (since st st1 @ since st1 st2)"
    by (metis a b append.assoc)
  then show ?thesis by (rule since_append)
qed

lemma renameAll_loop_count:
  "renameAll_loop h fs n st = (Inr m, st') \<Longrightarrow>
   trace st' = trace st @ since st st'
   \<and> m = n + length (filter is_action (since st st'))"
proof (induction fs arbitrary: n st)
  case Nil
  then show ?case by (simp add: since_def)
next
  case (Cons f rest)
  obtain r1 st1 where c: "renameAttachmentIfNeeded h f st = (r1, st1)"
    by (cases "renameAttachmentIfNeeded h f st")
  with Cons.prems obtain b where b: "r1 = Inr b"
    by (cases r1) auto
  let ?n1 = "if b then n + 1 else n"
  from Cons.prems c b have l: "renameAll_loop h rest ?n1 st1 = (Inr m, st')" by simp
  from Cons.IH[OF l] have i1: "trace st' = trace st1 @ since st1 st'"
    and i2: "m = ?n1 + length (filter is_action (since st1 st'))" by simp_all
  have g: "trace st1 = trace st @ since st st1"
    using renameAttachmentIfNeeded_trace_grows[OF c] .
  from c b have c': "renameAttachmentIfNeeded h f st = (Inr b, st1)" by simp
  have a: "length (filter is_action (since st st1)) = (if b then 1 else 0)"
    using renameAttachmentIfNeeded_actions[OF c'] .
  have s: "since st st' = since st st1 @ since st1 st'"
    using since_trans[OF g i1] .
  have "trace st' = trace st @ since st st'" using g i1 s by simp
  moreover have "m = n + length (filter is_action (since st st'))"
    using i2 a s by simp
  ultimately show ?case by simp
qed

lemma md5_empty: "Md5_hashBytes [] = ''d41d8cd98f00b204e9800998ecf8427e''"
  by code_simp

lemma md5_abc: "Md5_hashBytes [97, 98, 99] = ''900150983cd24fb0d6963f7d28e17f72''"
  by code_simp

lemma md5_two_blocks:
  "Md5_hashBytes (map (\<lambda>c. word_of_nat (of_char c))
     ''12345678901234567890123456789012345678901234567890123456789012345678901234567890'')
   = ''57edf4a22be3c955ac49da2e2107b67a''"
  by code_simp

lemma hexdigit_in: "hexdigit n \<in> set ''0123456789abcdef''"
proof -
  have "n mod 16 < length ''0123456789abcdef''" by simp
  then show ?thesis unfolding hexdigit_def by (rule nth_mem)
qed

lemma hex_byte_length: "length (hex_byte b) = 2"
  by (simp add: hex_byte_def)

lemma hex_byte_set: "c \<in> set (hex_byte b) \<Longrightarrow> c \<in> set ''0123456789abcdef''"
  unfolding hex_byte_def using hexdigit_in[of "unat b div 16"] hexdigit_in[of "unat b mod 16"]
  by (simp only: set_simps insert_iff empty_iff) blast

lemma concat_hex_length: "length (concat (map hex_byte bs)) = 2 * length bs"
  by (induction bs) (simp_all add: hex_byte_length)

lemma concat_hex_set: "c \<in> set (concat (map hex_byte bs)) \<Longrightarrow> c \<in> set ''0123456789abcdef''"
proof -
  assume "c \<in> set (concat (map hex_byte bs))"
  then obtain b where "c \<in> set (hex_byte b)" by auto
  then show ?thesis by (rule hex_byte_set)
qed

lemma word_le_bytes_length: "length (word_le_bytes w) = 4"
  by (simp add: word_le_bytes_def)

lemma md5_hex_of_length: "length (md5_hex_of r) = 32"
proof -
  obtain a b c d where r: "r = (a, b, c, d)" by (cases r)
  have "length (md5_hex_of r)
          = 2 * length (word_le_bytes a @ word_le_bytes b @ word_le_bytes c @ word_le_bytes d)"
    unfolding r md5_hex_of_def prod.case by (rule concat_hex_length)
  then show ?thesis by (simp add: word_le_bytes_length)
qed

lemma md5_hex_of_set: "c \<in> set (md5_hex_of r) \<Longrightarrow> c \<in> set ''0123456789abcdef''"
proof -
  obtain a b c' d where r: "r = (a, b, c', d)" by (cases r)
  assume "c \<in> set (md5_hex_of r)"
  then show ?thesis unfolding r md5_hex_of_def prod.case by (rule concat_hex_set)
qed

lemma Md5_hashBytes_hex:
  "length (Md5_hashBytes buf) = 32"
  "c \<in> set (Md5_hashBytes buf) \<Longrightarrow> c \<in> set ''0123456789abcdef''"
  unfolding Md5_hashBytes_def Md5_end_def
  by (rule md5_hex_of_length, erule md5_hex_of_set)

section \<open>Properties\<close>

subsection \<open>C1: a name clash with different content\<close>

text \<open>
  Claim C1, amended.  Let the file pass both filters, have a fingerprint other than its base
  name, and not be skipped by the linked-only policy (it has a referencing document, or
  \<open>renameOnlyLinkedAttachments\<close> is off), and let both lookups and the existence check
  return.  If a file exists at the candidate path and its own fingerprint differs from the
  target, then \<open>renameAttachmentIfNeeded\<close> returns \<open>false\<close>, leaves the vault as it was,
  and adds exactly one entry to the trace, the warning of line 104: no rename, no delete,
  no rewritten reference.
\<close>

theorem clash_blocks_without_mutation:
  assumes "candidate h file st validBaseName md cv"
      and "validPath = validPathOf h file validBaseName"
      and "adapter_exists h (world st) validPath = Inr True"
      and "generateValidBaseName h (world st) validPath = Inr other"
      and "other \<noteq> validBaseName"
  shows "\<exists>st'. renameAttachmentIfNeeded h file st = (Inr False, st')
            \<and> world st' = world st
            \<and> trace st' = trace st @ [ConsoleWarn (msg_clash (path file) validPath)]
            \<and> \<not> list_ex is_mutation (since st st')"
proof -
  have "renameAttachmentIfNeeded h file st =
          (Inr False, emit (ConsoleWarn (msg_clash (path file) validPath)) st)"
    using assms(2-5) by (simp add: candidate_dispatch[OF assms(1)] mergeIntoExisting_def)
  then show ?thesis by (simp add: world_emit trace_emit since_emit)
qed

text \<open>
  An instance: \<^verbatim>\<open>img/x.png\<close> in the vault \<open>v_clash\<close>.
\<close>

theorem clash_blocks_without_mutation_witness:
  "candidate (sv_host cfg_default) (sv_file ''img/x.png'') (start v_clash) ''01''
     (Some [''n.md'']) (Some [])
   \<and> ''img/01.png'' = validPathOf (sv_host cfg_default) (sv_file ''img/x.png'') ''01''
   \<and> adapter_exists (sv_host cfg_default) (world (start v_clash)) ''img/01.png'' = Inr True
   \<and> generateValidBaseName (sv_host cfg_default) (world (start v_clash)) ''img/01.png'' = Inr ''02''
   \<and> ''02'' \<noteq> ''01''
   \<and> renameAttachmentIfNeeded (sv_host cfg_default) (sv_file ''img/x.png'') (start v_clash)
       = (Inr False,
          \<lparr>world = v_clash, trace = [ConsoleWarn (msg_clash ''img/x.png'' ''img/01.png'')]\<rparr>)"
proof -
  let ?h = "sv_host cfg_default" and ?f = "sv_file ''img/x.png''" and ?st = "start v_clash"
  have a1: "candidate ?h ?f ?st ''01'' (Some [''n.md'']) (Some [])" by code_simp
  have a2: "''img/01.png'' = validPathOf ?h ?f ''01''" by code_simp
  have a3: "adapter_exists ?h (world ?st) ''img/01.png'' = Inr True" by code_simp
  have a4: "generateValidBaseName ?h (world ?st) ''img/01.png'' = Inr ''02''" by code_simp
  have a5: "''02'' \<noteq> ''01''" by simp
  have p: "path ?f = ''img/x.png''" by (simp add: sv_file_def)
  from clash_blocks_without_mutation[OF a1 a2 a3 a4 a5] obtain st' where
    r: "renameAttachmentIfNeeded ?h ?f ?st = (Inr False, st')"
       "world st' = world ?st"
       "trace st' = trace ?st @ [ConsoleWarn (msg_clash (path ?f) ''img/01.png'')]"
    by blast
  have "st' = \<lparr>world = v_clash, trace = [ConsoleWarn (msg_clash ''img/x.png'' ''img/01.png'')]\<rparr>"
    using r(2,3) p by (simp add: start_def)
  with r(1) a1 a2 a3 a4 a5 show ?thesis by simp
qed

text \<open>
  As C1 is worded (every file that passes the filters and is not canonically named) it
  does not hold: with \<open>renameOnlyLinkedAttachments\<close> on, an attachment no document links to
  returns at line 93, before the existence check, and the clash is not reported.  Here the
  clash is there (a file at \<^verbatim>\<open>img/01.png\<close> with fingerprint \<^verbatim>\<open>02\<close>), the call returns
  \<open>false\<close> and the trace stays empty.
\<close>

theorem clash_not_reported_when_unlinked:
  "passesFilters (sv_host cfg_linked_only) (sv_file ''img/x.png'')
   \<and> generateValidBaseName (sv_host cfg_linked_only) v_unlinked_clash ''img/x.png'' = Inr ''01''
   \<and> path_basename (sv_host cfg_linked_only) ''img/x.png''
        (path_extname (sv_host cfg_linked_only) ''img/x.png'') = ''x''
   \<and> validPathOf (sv_host cfg_linked_only) (sv_file ''img/x.png'') ''01'' = ''img/01.png''
   \<and> adapter_exists (sv_host cfg_linked_only) v_unlinked_clash ''img/01.png'' = Inr True
   \<and> generateValidBaseName (sv_host cfg_linked_only) v_unlinked_clash ''img/01.png'' = Inr ''02''
   \<and> renameAttachmentIfNeeded (sv_host cfg_linked_only) (sv_file ''img/x.png'')
        (start v_unlinked_clash) = (Inr False, start v_unlinked_clash)
   \<and> trace (start v_unlinked_clash) = []"
  by code_simp

subsection \<open>C2: merge deletes first, rewrites afterwards\<close>

text \<open>
  Claim C2.  On the merge path (the file reaches line 97, a file exists at the candidate
  path with the same fingerprint, and \<open>mergeTheSameAttachments\<close> is on): if the delete
  fails, the call returns \<open>false\<close>, the vault is unchanged, the only new trace entry is the
  error of line 116 and no note was rewritten; if the delete succeeds, the deletion is the
  first new entry of the trace; whenever a note was rewritten, the delete had succeeded
  and stands before every rewrite; and a merge that returns \<open>true\<close> added to the trace the
  deletion, then one rewrite from the old path to the canonical path for every note of
  \<open>allNotes\<close>, then the log entry of line 131.
\<close>

theorem merge_deletes_before_rewriting:
  assumes "candidate h file st validBaseName md cv"
      and "validPath = validPathOf h file validBaseName"
      and "adapter_exists h (world st) validPath = Inr True"
      and "generateValidBaseName h (world st) validPath = Inr validBaseName"
      and "mergeTheSameAttachments (settings h)"
      and "renameAttachmentIfNeeded h file st = (r, st')"
  shows "(\<forall>e. vault_delete h (world st) file = Inl e \<longrightarrow>
            r = Inr False \<and> world st' = world st
            \<and> since st st' = [ConsoleError (msg_cant_delete (path file) e)]
            \<and> updatedNotes (since st st') = [])
       \<and> (\<forall>w'. vault_delete h (world st) file = Inr w' \<longrightarrow>
            (\<exists>evs. since st st' = VaultDelete (path file) # evs))
       \<and> (updatedNotes (since st st') \<noteq> [] \<longrightarrow>
            (\<exists>w'. vault_delete h (world st) file = Inr w')
            \<and> hd (since st st') = VaultDelete (path file))
       \<and> (r = Inr True \<longrightarrow>
            since st st' =
              VaultDelete (path file)
              # map (updateEvent (path file) validPath) (collectAllNotes md cv)
              @ [ConsoleLog (msg_merged (path file) validPath)])"
proof -
  have m: "mergeIntoExisting h file validBaseName (collectAllNotes md cv) validPath st = (r, st')"
    using assms(2,3,6) by (simp add: candidate_dispatch[OF assms(1)])
  have full: "since st st' =
              VaultDelete (path file)
              # map (updateEvent (path file) validPath) (collectAllNotes md cv)
              @ [ConsoleLog (msg_merged (path file) validPath)]"
    if t: "r = Inr True"
  proof -
    from m t
    have "mergeIntoExisting h file validBaseName (collectAllNotes md cv) validPath st
            = (Inr True, st')" by simp
    from mergeIntoExisting_True_trace[OF this] show ?thesis by (rule since_append)
  qed
  have fail: "r = Inr False \<and> world st' = world st
            \<and> since st st' = [ConsoleError (msg_cant_delete (path file) e)]
            \<and> updatedNotes (since st st') = []"
    if "vault_delete h (world st) file = Inl e" for e
    using m that assms(4,5)
    by (auto simp: mergeIntoExisting_def world_emit since_emit updatedNotes_def)
  have ok: "\<exists>evs. since st st' = VaultDelete (path file) # evs"
    if "vault_delete h (world st) file = Inr w'" for w'
    using mergeIntoExisting_cases[OF m] that assms(4,5)
    by (auto simp: since_def)
  have upd: "(\<exists>w'. vault_delete h (world st) file = Inr w')
            \<and> hd (since st st') = VaultDelete (path file)"
    if u: "updatedNotes (since st st') \<noteq> []"
  proof (cases "vault_delete h (world st) file")
    case (Inl e)
    with fail[OF Inl] u show ?thesis by simp
  next
    case (Inr w')
    with ok[OF Inr] show ?thesis by auto
  qed
  from fail ok upd full show ?thesis by blast
qed

text \<open>
  Two instances: \<^verbatim>\<open>a.png\<close> duplicates \<^verbatim>\<open>03.png\<close> and cannot be deleted; and the same
  vault without the lock, where the merge goes through.
\<close>

theorem merge_deletes_before_rewriting_witness:
  "candidate (sv_host cfg_merge) (sv_file ''a.png'') (start v_duplicate_locked) ''03''
     (Some [''n.md'']) (Some [])
   \<and> ''03.png'' = validPathOf (sv_host cfg_merge) (sv_file ''a.png'') ''03''
   \<and> adapter_exists (sv_host cfg_merge) (world (start v_duplicate_locked)) ''03.png'' = Inr True
   \<and> generateValidBaseName (sv_host cfg_merge) (world (start v_duplicate_locked)) ''03.png''
       = Inr ''03''
   \<and> mergeTheSameAttachments (settings (sv_host cfg_merge))
   \<and> vault_delete (sv_host cfg_merge) (world (start v_duplicate_locked)) (sv_file ''a.png'')
       = Inl (Error ''EBUSY: resource busy or locked'')
   \<and> renameAttachmentIfNeeded (sv_host cfg_merge) (sv_file ''a.png'') (start v_duplicate_locked)
       = (Inr False,
          \<lparr>world = v_duplicate_locked,
           trace = [ConsoleError (msg_cant_delete ''a.png'' (Error ''EBUSY: resource busy or locked''))]\<rparr>)
   \<and> updatedNotes (since (start v_duplicate_locked)
          \<lparr>world = v_duplicate_locked,
           trace = [ConsoleError (msg_cant_delete ''a.png'' (Error ''EBUSY: resource busy or locked''))]\<rparr>)
       = []
   \<and> candidate (sv_host cfg_merge) (sv_file ''a.png'') (start v_duplicate) ''03''
       (Some [''n.md'']) (Some [])
   \<and> renameAttachmentIfNeeded (sv_host cfg_merge) (sv_file ''a.png'') (start v_duplicate)
       = (Inr True,
          \<lparr>world = v_duplicate\<lparr>files := [(''03.png'', [1, 2]), (''n.md'', [9])],
                                 links := [(''n.md'', [''03.png''])]\<rparr>,
           trace = [VaultDelete ''a.png'',
                    UpdateChangedPathInNote ''n.md'' ''a.png'' ''03.png'',
                    ConsoleLog (msg_merged ''a.png'' ''03.png'')]\<rparr>)
   \<and> [VaultDelete ''a.png'',
       UpdateChangedPathInNote ''n.md'' ''a.png'' ''03.png'',
       ConsoleLog (msg_merged ''a.png'' ''03.png'')]
      = VaultDelete ''a.png''
        # map (updateEvent ''a.png'' ''03.png'') (collectAllNotes (Some [''n.md'']) (Some []))
        @ [ConsoleLog (msg_merged ''a.png'' ''03.png'')]"
proof -
  let ?h = "sv_host cfg_merge" and ?f = "sv_file ''a.png''" and ?st = "start v_duplicate_locked"
  let ?st' = "\<lparr>world = v_duplicate_locked,
           trace = [ConsoleError (msg_cant_delete ''a.png'' (Error ''EBUSY: resource busy or locked''))]\<rparr>"
  have a1: "candidate ?h ?f ?st ''03'' (Some [''n.md'']) (Some [])" by code_simp
  have a2: "''03.png'' = validPathOf ?h ?f ''03''" by code_simp
  have a3: "adapter_exists ?h (world ?st) ''03.png'' = Inr True" by code_simp
  have a4: "generateValidBaseName ?h (world ?st) ''03.png'' = Inr ''03''" by code_simp
  have a5: "mergeTheSameAttachments (settings ?h)" by code_simp
  have a6: "renameAttachmentIfNeeded ?h ?f ?st = (Inr False, ?st')" by code_simp
  have d: "vault_delete ?h (world ?st) ?f = Inl (Error ''EBUSY: resource busy or locked'')"
    by code_simp
  from merge_deletes_before_rewriting[OF a1 a2 a3 a4 a5 a6] d
  have n: "updatedNotes (since ?st ?st') = []" by blast
  let ?su = "start v_duplicate"
  let ?su' = "\<lparr>world = v_duplicate\<lparr>files := [(''03.png'', [1, 2]), (''n.md'', [9])],
                                 links := [(''n.md'', [''03.png''])]\<rparr>,
           trace = [VaultDelete ''a.png'',
                    UpdateChangedPathInNote ''n.md'' ''a.png'' ''03.png'',
                    ConsoleLog (msg_merged ''a.png'' ''03.png'')]\<rparr>"
  have b1: "candidate ?h ?f ?su ''03'' (Some [''n.md'']) (Some [])" by code_simp
  have b3: "adapter_exists ?h (world ?su) ''03.png'' = Inr True" by code_simp
  have b4: "generateValidBaseName ?h (world ?su) ''03.png'' = Inr ''03''" by code_simp
  have b6: "renameAttachmentIfNeeded ?h ?f ?su = (Inr True, ?su')" by code_simp
  have p: "path ?f = ''a.png''" by (simp add: sv_file_def)
  have s: "since ?su ?su' = trace ?su'" by (simp add: since_def start_def)
  from merge_deletes_before_rewriting[OF b1 a2 b3 b4 a5 b6]
  have "since ?su ?su' =
          VaultDelete (path ?f)
          # map (updateEvent (path ?f) ''03.png'') (collectAllNotes (Some [''n.md'']) (Some []))
          @ [ConsoleLog (msg_merged (path ?f) ''03.png'')]"
    by blast
  then have e: "[VaultDelete ''a.png'',
       UpdateChangedPathInNote ''n.md'' ''a.png'' ''03.png'',
       ConsoleLog (msg_merged ''a.png'' ''03.png'')]
      = VaultDelete ''a.png''
        # map (updateEvent ''a.png'' ''03.png'') (collectAllNotes (Some [''n.md'']) (Some []))
        @ [ConsoleLog (msg_merged ''a.png'' ''03.png'')]"
    unfolding s p by simp
  from a1 a2 a3 a4 a5 a6 d n b1 b6 e show ?thesis by simp
qed

subsection \<open>C3: running the full pass twice\<close>




subsection \<open>C4: a failure inside the batch\<close>

text \<open>
  Claim C4 at a failing input.  The vault lists \<^verbatim>\<open>a.png\<close> and \<^verbatim>\<open>b.png\<close>; reading
  \<^verbatim>\<open>a.png\<close> fails.  The read of line 280 is awaited at line 81, outside any \<^verbatim>\<open>try\<close>, and
  the loop of lines 35-39 has none either: \<open>renameAllAttachments\<close> ends with the error,
  shows no notice, and never processes \<^verbatim>\<open>b.png\<close>, which on its own would have been
  renamed.
\<close>

theorem batch_aborts_on_read_failure:
  "renameAllAttachments (sv_host cfg_default) (start v_unreadable)
     = (Inl (Error ''EIO: i/o error, read''), start v_unreadable)
   \<and> renameAttachmentIfNeeded (sv_host cfg_default) (sv_file ''b.png'') (start v_unreadable)
     = (Inr True,
        \<lparr>world = v_unreadable\<lparr>files := [(''a.png'', [1]), (''02.png'', [2])]\<rparr>,
         trace = [VaultRename ''b.png'' ''02.png'', ConsoleLog (msg_renamed ''b.png'' ''02.png'')]\<rparr>)"
  by code_simp

text \<open>
  What does hold of the batch: a call that returns \<open>false\<close>, a caught rename or delete
  failure included, lets the loop go on (\<open>renameAll_loop_step\<close>), and when the batch
  completes, the trace has only grown and the count in the final notice is the number of
  renames and deletes the run performed.
\<close>

lemma completed_batch_counts_actions:
  assumes "renameAllAttachments h st = (Inr (), st')"
  shows "trace st' = trace st @ since st st'
       \<and> since st st' \<noteq> []
       \<and> last (since st st')
           = Notice (countNotice (length (filter is_action (since st st'))))"
proof -
  from assms obtain m st1 where
    l: "renameAll_loop h (vault_getFiles h (world st)) 0 st = (Inr m, st1)"
    and s: "st' = emit (Notice (countNotice m)) st1"
    by (auto simp: renameAllAttachments_def split: prod.splits sum.splits)
  from renameAll_loop_count[OF l] have g: "trace st1 = trace st @ since st st1"
    and c: "m = length (filter is_action (since st st1))" by simp_all
  have t: "trace st' = trace st @ (since st st1 @ [Notice (countNotice m)])"
    using g s by (metis append.assoc trace_emit)
  then have e: "since st st' = since st st1 @ [Notice (countNotice m)]"
    by (rule since_append)
  show ?thesis using t e c by simp
qed

text \<open>An instance: merging \<^verbatim>\<open>a.png\<close> into \<^verbatim>\<open>03.png\<close> is one delete, and the notice reports
  one file.\<close>

lemma completed_batch_counts_actions_example:
  "renameAllAttachments (sv_host cfg_merge) (start v_duplicate)
     = (Inr (),
        \<lparr>world = v_duplicate\<lparr>files := [(''03.png'', [1, 2]), (''n.md'', [9])],
                               links := [(''n.md'', [''03.png''])]\<rparr>,
         trace = [VaultDelete ''a.png'',
                  UpdateChangedPathInNote ''n.md'' ''a.png'' ''03.png'',
                  ConsoleLog (msg_merged ''a.png'' ''03.png''),
                  Notice ''Renamed 1 file.'']\<rparr>)
   \<and> length (filter is_action
        [VaultDelete ''a.png'',
         UpdateChangedPathInNote ''n.md'' ''a.png'' ''03.png'',
         ConsoleLog (msg_merged ''a.png'' ''03.png''),
         Notice ''Renamed 1 file.'']) = 1
   \<and> countNotice 1 = ''Renamed 1 file.''"
proof -
  let ?st' = "\<lparr>world = v_duplicate\<lparr>files := [(''03.png'', [1, 2]), (''n.md'', [9])],
                               links := [(''n.md'', [''03.png''])]\<rparr>,
         trace = [VaultDelete ''a.png'',
                  UpdateChangedPathInNote ''n.md'' ''a.png'' ''03.png'',
                  ConsoleLog (msg_merged ''a.png'' ''03.png''),
                  Notice ''Renamed 1 file.'']\<rparr>"
  have a: "renameAllAttachments (sv_host cfg_merge) (start v_duplicate) = (Inr (), ?st')"
    by code_simp
  have b: "since (start v_duplicate) ?st' = trace ?st'"
    by (simp add: since_def start_def)
  have n: "countNotice 1 = ''Renamed 1 file.''" by (simp add: countNotice_def)
  from completed_batch_counts_actions[OF a]
  have "Notice (countNotice (length (filter is_action (trace ?st')))) = Notice ''Renamed 1 file.''"
    unfolding b by simp
  then have "length (filter is_action (trace ?st')) = 1"
    by simp
  with a n show ?thesis by simp
qed

subsection \<open>C5: a canvas that does not parse\<close>

text \<open>
  Claim C5 at a failing input.  The active document is a canvas whose text is \<^verbatim>\<open>{\<close>.
  \<^verbatim>\<open>JSON.parse\<close> (line 177) throws; nothing catches the error in
  \<open>renameAttachmentsForActiveMD\<close> or in \<open>renameOnlyActiveAttachments\<close>, so the command ends
  with the error: nothing is written to the console and no notice is shown.
\<close>

theorem active_canvas_parse_failure_escapes:
  "vault_read (sv_host cfg_default) v_bad_canvas (sv_file ''board.canvas'') = Inr ''{''
   \<and> JSON_parse (sv_host cfg_default) ''{'' = Inl (SyntaxError ''Unexpected end of JSON input'')
   \<and> renameAttachmentsForActiveMD (sv_host cfg_default) (sv_file ''board.canvas'')
        (start v_bad_canvas)
       = (Inl (SyntaxError ''Unexpected end of JSON input''), start v_bad_canvas)
   \<and> renameOnlyActiveAttachments (sv_host cfg_default) (start v_bad_canvas)
       = (Inl (SyntaxError ''Unexpected end of JSON input''), start v_bad_canvas)
   \<and> trace (start v_bad_canvas) = []"
  by code_simp

text \<open>
  The same command on a well-formed canvas with one file node renames the attachment and
  reports it.
\<close>

lemma well_formed_canvas_is_processed:
  "renameOnlyActiveAttachments (sv_host cfg_default) (start v_good_canvas)
     = (Inr (),
        \<lparr>world = v_good_canvas\<lparr>files := [(''board.canvas'', map (\<lambda>c. word_of_nat (of_char c)) sv_canvas_one), (''02.png'', [2])]\<rparr>,
         trace = [VaultRename ''b.png'' ''02.png'', ConsoleLog (msg_renamed ''b.png'' ''02.png''),
                  Notice ''Renamed 1 file.'']\<rparr>)"
  by code_simp

subsection \<open>C6: every referencing document once\<close>



subsection \<open>C7: the fingerprint depends on the bytes only\<close>



subsection \<open>C8: what a blocked outcome logs\<close>

text \<open>
  Claim C8, amended.  For a file that reaches line 97: a name clash with different content
  and a duplicate whose merge is switched off each log one warning, a failed rename logs
  one error, and each of these three messages mentions both the source path and the
  destination path (the rename error also the exception text); a failed delete logs one
  error that mentions the source path and the exception text.  In all four cases the call
  returns \<open>false\<close>, and after a \<open>false\<close> the loop of \<open>renameAllAttachments\<close> goes on with the
  next file.
\<close>

theorem blocked_outcomes_are_reported:
  assumes "candidate h file st validBaseName md cv"
      and "validPath = validPathOf h file validBaseName"
      and "renameAttachmentIfNeeded h file st = (r, st')"
  shows "(\<forall>other. adapter_exists h (world st) validPath = Inr True
            \<and> generateValidBaseName h (world st) validPath = Inr other
            \<and> other \<noteq> validBaseName \<longrightarrow>
            r = Inr False \<and> since st st' = [ConsoleWarn (msg_clash (path file) validPath)])
       \<and> (adapter_exists h (world st) validPath = Inr True
            \<and> generateValidBaseName h (world st) validPath = Inr validBaseName
            \<and> \<not> mergeTheSameAttachments (settings h) \<longrightarrow>
            r = Inr False \<and> since st st' = [ConsoleWarn (msg_duplicate (path file) validPath)])
       \<and> (\<forall>e. adapter_exists h (world st) validPath = Inr False
            \<and> vault_rename h (world st) file validPath = Inl e \<longrightarrow>
            r = Inr False
            \<and> since st st' = [ConsoleError (msg_cant_rename (path file) validPath e)])
       \<and> (\<forall>e. adapter_exists h (world st) validPath = Inr True
            \<and> generateValidBaseName h (world st) validPath = Inr validBaseName
            \<and> mergeTheSameAttachments (settings h)
            \<and> vault_delete h (world st) file = Inl e \<longrightarrow>
            r = Inr False \<and> since st st' = [ConsoleError (msg_cant_delete (path file) e)])
       \<and> mentions (msg_clash (path file) validPath) (path file)
       \<and> mentions (msg_clash (path file) validPath) validPath
       \<and> mentions (msg_duplicate (path file) validPath) (path file)
       \<and> mentions (msg_duplicate (path file) validPath) validPath
       \<and> (\<forall>e. mentions (msg_cant_rename (path file) validPath e) (path file)
             \<and> mentions (msg_cant_rename (path file) validPath e) validPath
             \<and> mentions (msg_cant_rename (path file) validPath e) (error_toString e)
             \<and> mentions (msg_cant_delete (path file) e) (path file)
             \<and> mentions (msg_cant_delete (path file) e) (error_toString e))
       \<and> (r = Inr False \<longrightarrow>
            renameAll_loop h (file # rest) n st = renameAll_loop h rest n st')"
proof -
  note d = candidate_dispatch[OF assms(1)]
  have c1: "r = Inr False \<and> since st st' = [ConsoleWarn (msg_clash (path file) validPath)]"
    if "adapter_exists h (world st) validPath = Inr True"
       "generateValidBaseName h (world st) validPath = Inr other" "other \<noteq> validBaseName"
    for other
    using that assms(2,3) by (auto simp: d mergeIntoExisting_def since_emit)
  have c2: "r = Inr False \<and> since st st' = [ConsoleWarn (msg_duplicate (path file) validPath)]"
    if "adapter_exists h (world st) validPath = Inr True"
       "generateValidBaseName h (world st) validPath = Inr validBaseName"
       "\<not> mergeTheSameAttachments (settings h)"
    using that assms(2,3) by (auto simp: d mergeIntoExisting_def since_emit)
  have c3: "r = Inr False
          \<and> since st st' = [ConsoleError (msg_cant_rename (path file) validPath e)]"
    if "adapter_exists h (world st) validPath = Inr False"
       "vault_rename h (world st) file validPath = Inl e"
    for e
    using that assms(2,3) by (auto simp: d renameToValidPath_def since_emit)
  have c4: "r = Inr False \<and> since st st' = [ConsoleError (msg_cant_delete (path file) e)]"
    if "adapter_exists h (world st) validPath = Inr True"
       "generateValidBaseName h (world st) validPath = Inr validBaseName"
       "mergeTheSameAttachments (settings h)"
       "vault_delete h (world st) file = Inl e"
    for e
    using that assms(2,3) by (auto simp: d mergeIntoExisting_def since_emit)
  have c5: "r = Inr False \<longrightarrow>
            renameAll_loop h (file # rest) n st = renameAll_loop h rest n st'"
    using assms(3) by simp
  from c1 c2 c3 c4 c5 show ?thesis
    by (simp add: mentions_def sublist_msgs)
qed

text \<open>
  An instance: \<^verbatim>\<open>img/x.png\<close> cannot be renamed.
\<close>

theorem blocked_outcomes_are_reported_witness:
  "candidate (sv_host cfg_default) (sv_file ''img/x.png'') (start v_single_locked) ''01''
     (Some [''n.md'']) (Some [])
   \<and> ''img/01.png'' = validPathOf (sv_host cfg_default) (sv_file ''img/x.png'') ''01''
   \<and> adapter_exists (sv_host cfg_default) (world (start v_single_locked)) ''img/01.png''
       = Inr False
   \<and> vault_rename (sv_host cfg_default) (world (start v_single_locked)) (sv_file ''img/x.png'')
        ''img/01.png'' = Inl (Error ''EBUSY: resource busy or locked'')
   \<and> renameAttachmentIfNeeded (sv_host cfg_default) (sv_file ''img/x.png'') (start v_single_locked)
       = (Inr False,
          \<lparr>world = v_single_locked,
           trace = [ConsoleError (msg_cant_rename ''img/x.png'' ''img/01.png''
                      (Error ''EBUSY: resource busy or locked''))]\<rparr>)
   \<and> mentions (msg_cant_rename ''img/x.png'' ''img/01.png'' (Error ''EBUSY: resource busy or locked''))
        ''img/x.png''
   \<and> mentions (msg_cant_rename ''img/x.png'' ''img/01.png'' (Error ''EBUSY: resource busy or locked''))
        ''img/01.png''
   \<and> renameAll_loop (sv_host cfg_default) [sv_file ''img/x.png'', sv_file ''n.md''] 0
        (start v_single_locked)
       = renameAll_loop (sv_host cfg_default) [sv_file ''n.md''] 0
          \<lparr>world = v_single_locked,
           trace = [ConsoleError (msg_cant_rename ''img/x.png'' ''img/01.png''
                      (Error ''EBUSY: resource busy or locked''))]\<rparr>"
proof -
  let ?h = "sv_host cfg_default" and ?f = "sv_file ''img/x.png''"
  let ?st = "start v_single_locked"
  let ?e = "Error ''EBUSY: resource busy or locked''"
  let ?st' = "\<lparr>world = v_single_locked,
           trace = [ConsoleError (msg_cant_rename ''img/x.png'' ''img/01.png'' ?e)]\<rparr>"
  have a1: "candidate ?h ?f ?st ''01'' (Some [''n.md'']) (Some [])" by code_simp
  have a2: "''img/01.png'' = validPathOf ?h ?f ''01''" by code_simp
  have a3: "renameAttachmentIfNeeded ?h ?f ?st = (Inr False, ?st')" by code_simp
  have x: "adapter_exists ?h (world ?st) ''img/01.png'' = Inr False" by code_simp
  have r: "vault_rename ?h (world ?st) ?f ''img/01.png'' = Inl ?e" by code_simp
  have p: "path ?f = ''img/x.png''" by (simp add: sv_file_def)
  note t = blocked_outcomes_are_reported[OF a1 a2 a3, of "[sv_file ''n.md'']" 0]
  from t have m1: "mentions (msg_cant_rename ''img/x.png'' ''img/01.png'' ?e) ''img/x.png''"
    and m2: "mentions (msg_cant_rename ''img/x.png'' ''img/01.png'' ?e) ''img/01.png''"
    by (simp_all add: p)
  from t have l: "renameAll_loop ?h [?f, sv_file ''n.md''] 0 ?st
                    = renameAll_loop ?h [sv_file ''n.md''] 0 ?st'"
    by blast
  from a1 a2 a3 x r m1 m2 l show ?thesis by simp
qed

text \<open>
  As C8 is worded (every blocked outcome is logged with both paths) it does not hold: the
  message of a failed delete (line 116) names the source path only.  Here the destination
  is \<^verbatim>\<open>03.png\<close> and the one message logged does not mention it.
\<close>

theorem delete_failure_omits_destination:
  "validPathOf (sv_host cfg_merge) (sv_file ''a.png'') ''03'' = ''03.png''
   \<and> renameAttachmentIfNeeded (sv_host cfg_merge) (sv_file ''a.png'') (start v_duplicate_locked)
       = (Inr False,
          \<lparr>world = v_duplicate_locked,
           trace = [ConsoleError
             ''Unique attachments: cant delete duplicate file a.png.\<newline>Error: EBUSY: resource busy or locked'']\<rparr>)
   \<and> \<not> mentions
         ''Unique attachments: cant delete duplicate file a.png.\<newline>Error: EBUSY: resource busy or locked''
         ''03.png''"
  by code_simp

subsection \<open>C9: a call that returns false changed nothing\<close>

text \<open>
  Claim C9.  Whenever \<open>renameAttachmentIfNeeded\<close> returns \<open>false\<close>, the vault after the call
  is the vault before it, the trace has only grown, and none of the new entries is a
  rename, a delete or a rewritten reference.
\<close>

theorem false_means_no_mutation:
  assumes "renameAttachmentIfNeeded h file st = (Inr False, st')"
  shows "world st' = world st \<and> trace st' = trace st @ since st st'
       \<and> \<not> list_ex is_mutation (since st st')"
proof -
  from renameAttachmentIfNeeded_cases[OF assms]
  consider (same) "st' = st"
    | (merge) vb ns vp where "mergeIntoExisting h file vb ns vp st = (Inr False, st')"
    | (rename) ns vp where "renameToValidPath h file ns vp st = (Inr False, st')"
    by blast
  then show ?thesis
  proof cases
    case same
    then show ?thesis by (simp add: since_def)
  next
    case merge
    from mergeIntoExisting_cases[OF this] obtain ev where
      "st' = emit ev st" "\<not> is_mutation ev" by auto
    then show ?thesis by (simp add: since_def emit_def)
  next
    case rename
    from renameToValidPath_cases[OF this] obtain ev where
      "st' = emit ev st" "\<not> is_mutation ev" by auto
    then show ?thesis by (simp add: since_def emit_def)
  qed
qed

text \<open>
  An instance: a duplicate whose merge is switched off.
\<close>

theorem false_means_no_mutation_witness:
  "renameAttachmentIfNeeded (sv_host cfg_default) (sv_file ''a.png'') (start v_duplicate)
     = (Inr False,
        \<lparr>world = v_duplicate, trace = [ConsoleWarn (msg_duplicate ''a.png'' ''03.png'')]\<rparr>)
   \<and> world \<lparr>world = v_duplicate, trace = [ConsoleWarn (msg_duplicate ''a.png'' ''03.png'')]\<rparr>
       = world (start v_duplicate)
   \<and> \<not> list_ex is_mutation
         (since (start v_duplicate)
            \<lparr>world = v_duplicate, trace = [ConsoleWarn (msg_duplicate ''a.png'' ''03.png'')]\<rparr>)"
proof -
  have a: "renameAttachmentIfNeeded (sv_host cfg_default) (sv_file ''a.png'') (start v_duplicate)
     = (Inr False,
        \<lparr>world = v_duplicate, trace = [ConsoleWarn (msg_duplicate ''a.png'' ''03.png'')]\<rparr>)"
    by code_simp
  from false_means_no_mutation[OF a] a show ?thesis by simp
qed

subsection \<open>C10: the filters compare characters\<close>

text \<open>
  Claim C10.  A file goes on to \<open>processAttachment\<close> exactly when no entry of
  \<open>ignoreFolders\<close> is a prefix of its path and its path ends with a dot followed by an entry
  of \<open>renameFileTypes\<close>; otherwise the call returns \<open>false\<close> and changes nothing.  Both
  tests compare character by character: with \<^verbatim>\<open>png\<close> as the only allowed type
  \<^verbatim>\<open>IMG.PNG\<close> is skipped, and an ignored entry skips every path it is a prefix of,
  whatever follows.
\<close>

theorem gating_is_literal_matching:
  "renameAttachmentIfNeeded h file st =
     (if (\<forall>folder \<in> set (ignoreFolders (settings h)). \<not> prefix folder (path file))
         \<and> (\<exists>ext \<in> set (renameFileTypes (settings h)). suffix (''.'' @ ext) (path file))
      then processAttachment h file st else (Inr False, st))
   \<and> (renameFileTypes (settings h) = [''png''] \<longrightarrow>
        renameAttachmentIfNeeded h (file\<lparr>path := ''IMG.PNG''\<rparr>) st = (Inr False, st))
   \<and> (folder \<in> set (ignoreFolders (settings h)) \<longrightarrow>
        renameAttachmentIfNeeded h (file\<lparr>path := folder @ rest\<rparr>) st = (Inr False, st))"
proof -
  have g: "\<And>f. renameAttachmentIfNeeded h f st =
     (if (\<forall>folder \<in> set (ignoreFolders (settings h)). \<not> prefix folder (path f))
         \<and> (\<exists>ext \<in> set (renameFileTypes (settings h)). suffix (''.'' @ ext) (path f))
      then processAttachment h f st else (Inr False, st))"
    by (simp add: renameAttachmentIfNeeded_def checkFilePathIsIgnored_def
        checkFileTypeIsAllowed_def checkFilePathIsIgnored_loop_iff
        checkFileTypeIsAllowed_loop_iff)
  have c: "renameFileTypes (settings h) = [''png''] \<longrightarrow>
        renameAttachmentIfNeeded h (file\<lparr>path := ''IMG.PNG''\<rparr>) st = (Inr False, st)"
    by (simp add: g suffix_def)
  have p: "folder \<in> set (ignoreFolders (settings h)) \<longrightarrow>
        renameAttachmentIfNeeded h (file\<lparr>path := folder @ rest\<rparr>) st = (Inr False, st)"
    by (auto simp: g)
  from g c p show ?thesis by blast
qed

text \<open>
  An instance: with \<^verbatim>\<open>arch\<close> ignored and \<^verbatim>\<open>png\<close> allowed, \<^verbatim>\<open>IMG.PNG\<close> and
  \<^verbatim>\<open>archive/x.png\<close> are skipped and \<^verbatim>\<open>img/x.png\<close> is processed.
\<close>

theorem gating_is_literal_matching_witness:
  "renameFileTypes (settings (sv_host cfg_gate)) = [''png'']
   \<and> ''arch'' \<in> set (ignoreFolders (settings (sv_host cfg_gate)))
   \<and> renameAttachmentIfNeeded (sv_host cfg_gate) (sv_file ''IMG.PNG'') (start v_single)
       = (Inr False, start v_single)
   \<and> renameAttachmentIfNeeded (sv_host cfg_gate) (sv_file ''archive/x.png'') (start v_single)
       = (Inr False, start v_single)
   \<and> renameAttachmentIfNeeded (sv_host cfg_gate) (sv_file ''img/x.png'') (start v_single)
       = processAttachment (sv_host cfg_gate) (sv_file ''img/x.png'') (start v_single)"
proof -
  let ?h = "sv_host cfg_gate" and ?st = "start v_single"
  have t: "renameFileTypes (settings ?h) = [''png'']" by code_simp
  have i: "''arch'' \<in> set (ignoreFolders (settings ?h))" by code_simp
  have f1: "(sv_file ''IMG.PNG'')\<lparr>path := ''IMG.PNG''\<rparr> = sv_file ''IMG.PNG''"
    by (simp add: sv_file_def)
  have f2: "(sv_file ''archive/x.png'')\<lparr>path := ''arch'' @ ''ive/x.png''\<rparr> = sv_file ''archive/x.png''"
    by (simp add: sv_file_def)
  note T1 = gating_is_literal_matching[of ?h "sv_file ''IMG.PNG''" ?st "''arch''" "''ive/x.png''"]
  note T2 = gating_is_literal_matching[of ?h "sv_file ''archive/x.png''" ?st "''arch''" "''ive/x.png''"]
  note T3 = gating_is_literal_matching[of ?h "sv_file ''img/x.png''" ?st "''arch''" "''ive/x.png''"]
  have c1: "renameAttachmentIfNeeded ?h (sv_file ''IMG.PNG'') ?st = (Inr False, ?st)"
    using conjunct1[OF conjunct2[OF T1]] t by (simp only: f1)
  have c2: "renameAttachmentIfNeeded ?h (sv_file ''archive/x.png'') ?st = (Inr False, ?st)"
    using conjunct2[OF conjunct2[OF T2]] i by (simp only: f2)
  have g: "(\<forall>folder \<in> set (ignoreFolders (settings ?h)). \<not> prefix folder (path (sv_file ''img/x.png'')))
         \<and> (\<exists>ext \<in> set (renameFileTypes (settings ?h)). suffix (''.'' @ ext) (path (sv_file ''img/x.png'')))"
    by code_simp
  have c3: "renameAttachmentIfNeeded ?h (sv_file ''img/x.png'') ?st
              = processAttachment ?h (sv_file ''img/x.png'') ?st"
    by (subst conjunct1[OF T3]) (rule if_P[OF g])
  from t i c1 c2 c3 show ?thesis by simp
qed

end
